theory Spec2Isabelle
  imports
    Complex_Main
    "HOL-Library.List_Lexorder"
    "HOL-Library.Char_ord"
    "HOL-Library.Product_Lexorder"
begin

section \<open>The transaction table\<close>

text \<open>
  \<^verbatim>\<open>analyze_retail.py\<close> works on a pandas \<^verbatim>\<open>DataFrame\<close>. A frame is an ordered
  collection of named columns, and every column has one dtype: numbers (\<^verbatim>\<open>int64\<close> /
  \<^verbatim>\<open>float64\<close>), text (\<^verbatim>\<open>object\<close>) or timestamps (\<^verbatim>\<open>datetime64\<close>). A missing cell
  (\<^verbatim>\<open>NaN\<close>, \<^verbatim>\<open>None\<close>, \<^verbatim>\<open>NaT\<close>) is \<open>None\<close>.

  Numbers are reals here, and the sums, quotients and comparisons below are the exact
  ones. pandas computes in \<^verbatim>\<open>int64\<close> and \<^verbatim>\<open>float64\<close>: its sums are the sums below
  whenever the amounts are whole numbers whose magnitudes add up to at most \<open>2 ^ 53\<close>
  (every partial sum is then a whole number that both types hold exactly, in whatever
  order it is formed), and they can differ from them by rounding otherwise. The
  properties below that equate sums, or that compare a quotient of sums with a bound,
  are therefore stated for such amounts only; see \<open>whole_amounts\<close>.
\<close>

record timestamp =
  year :: int
  month :: int
  day :: int
  time_ns :: int

datatype column =
    Numeric "real option list"
  | Object "string option list"
  | Datetime "timestamp option list"

type_synonym dataframe = "(string \<times> column) list"

datatype py_error = ValueError | TypeError | IndexError | KeyError | AttributeError

definition columns :: "dataframe \<Rightarrow> string list" where
  "columns df = map fst df"

fun col_len :: "column \<Rightarrow> nat" where
  "col_len (Numeric xs) = length xs"
| "col_len (Object xs) = length xs"
| "col_len (Datetime xs) = length xs"

text \<open>\<^verbatim>\<open>df.shape[0]\<close>: all columns of a frame have the same length.\<close>

definition nrows :: "dataframe \<Rightarrow> nat" where
  "nrows df = (case df of [] \<Rightarrow> 0 | (n, c) # rest \<Rightarrow> col_len c)"

text \<open>
  \<^verbatim>\<open>df[name] = col\<close>: an existing column is replaced where it stands, a new one is
  appended.
\<close>

fun set_column :: "string \<Rightarrow> column \<Rightarrow> dataframe \<Rightarrow> dataframe" where
  "set_column n c [] = [(n, c)]"
| "set_column n c ((m, d) # df) =
     (if m = n then (n, c) # df else (m, d) # set_column n c df)"

fun dropna :: "'a option list \<Rightarrow> 'a list" where
  "dropna [] = []"
| "dropna (None # xs) = dropna xs"
| "dropna (Some x # xs) = x # dropna xs"

subsection \<open>Group keys\<close>

text \<open>
  The values of a column used as a group key. Keys of one column have one dtype, so the
  order between keys of different dtypes below is never consulted by a frame.
\<close>

datatype key = KNum real | KStr string | KTime timestamp

definition stamp_tuple :: "timestamp \<Rightarrow> int \<times> int \<times> int \<times> int" where
  "stamp_tuple t = (year t, month t, day t, time_ns t)"

fun key_le :: "key \<Rightarrow> key \<Rightarrow> bool" where
  "key_le (KNum a) (KNum b) = (a \<le> b)"
| "key_le (KNum a) (KStr b) = True"
| "key_le (KNum a) (KTime b) = True"
| "key_le (KStr a) (KNum b) = False"
| "key_le (KStr a) (KStr b) = (a \<le> b)"
| "key_le (KStr a) (KTime b) = True"
| "key_le (KTime a) (KNum b) = False"
| "key_le (KTime a) (KStr b) = False"
| "key_le (KTime a) (KTime b) = (stamp_tuple a \<le> stamp_tuple b)"

instantiation key :: linorder
begin

definition less_eq_key :: "key \<Rightarrow> key \<Rightarrow> bool" where
  "less_eq_key a b = key_le a b"

definition less_key :: "key \<Rightarrow> key \<Rightarrow> bool" where
  "less_key a b = (key_le a b \<and> \<not> key_le b a)"

instance
proof
  fix x y z :: key
  show "(x < y) = (x \<le> y \<and> \<not> y \<le> x)"
    by (simp add: less_key_def less_eq_key_def)
  show "x \<le> x"
    by (cases x) (simp_all add: less_eq_key_def)
  show "x \<le> y \<Longrightarrow> y \<le> z \<Longrightarrow> x \<le> z"
    by (cases x; cases y; cases z) (auto simp: less_eq_key_def)
  show "x \<le> y \<Longrightarrow> y \<le> x \<Longrightarrow> x = y"
    by (cases x; cases y) (auto simp: less_eq_key_def stamp_tuple_def)
  show "x \<le> y \<or> y \<le> x"
    by (cases x; cases y) (auto simp: less_eq_key_def)
qed

end

fun keys_of :: "column \<Rightarrow> key option list" where
  "keys_of (Numeric xs) = map (map_option KNum) xs"
| "keys_of (Object xs) = map (map_option KStr) xs"
| "keys_of (Datetime xs) = map (map_option KTime) xs"

subsection \<open>Series and aggregation\<close>

text \<open>
  A \<^verbatim>\<open>Series\<close> produced by an aggregation: index labels with their values, in index
  order.
\<close>

type_synonym 'v series = "(key \<times> 'v) list"

text \<open>\<^verbatim>\<open>unique\<close>: the distinct values in order of first appearance.\<close>

definition unique :: "'a list \<Rightarrow> 'a list" where
  "unique xs = rev (remdups (rev xs))"

text \<open>
  \<^verbatim>\<open>groupby\<close> has \<^verbatim>\<open>dropna=True\<close> and \<^verbatim>\<open>sort=True\<close> by default: a row whose key is
  missing belongs to no group, and the groups come in ascending key order.
\<close>

definition group_keys :: "key option list \<Rightarrow> key list" where
  "group_keys ks = sort (unique (dropna ks))"

text \<open>\<^verbatim>\<open>sum\<close> has \<^verbatim>\<open>skipna=True\<close>: missing values add nothing; an empty sum is 0.\<close>

definition nansum :: "real option list \<Rightarrow> real" where
  "nansum vs = sum_list (dropna vs)"

definition group_rows :: "key \<Rightarrow> key option list \<Rightarrow> 'v list \<Rightarrow> 'v list" where
  "group_rows k ks vs = map snd (filter (\<lambda>r. fst r = Some k) (zip ks vs))"

definition groupby_sum :: "key option list \<Rightarrow> real option list \<Rightarrow> real series" where
  "groupby_sum ks vs = map (\<lambda>k. (k, nansum (group_rows k ks vs))) (group_keys ks)"

text \<open>
  \<^verbatim>\<open>df.groupby(by)[val].sum()\<close> as the trend and revenue steps use it. The monetary
  column of a transaction table is numeric. pandas refuses to sum a timestamp column
  (\<^verbatim>\<open>TypeError\<close>). It sums a text column by concatenation, and the aggregate is not
  numeric: the bar chart that both steps draw from it raises \<^verbatim>\<open>TypeError\<close> (no numeric
  data to plot), and so does a sort that meets text and the number 0. A text column is
  therefore reported as \<^verbatim>\<open>TypeError\<close> here. The customer step draws no bar chart and
  goes on with a text aggregate; it has its own sum, \<open>customer_spending\<close>.
\<close>

definition groupby_column_sum :: "dataframe \<Rightarrow> string \<Rightarrow> string \<Rightarrow> py_error + real series" where
  "groupby_column_sum df by val =
     (case map_of df by of
        None \<Rightarrow> Inl KeyError
      | Some kc \<Rightarrow>
          (case map_of df val of
             None \<Rightarrow> Inl KeyError
           | Some (Numeric vs) \<Rightarrow> Inr (groupby_sum (keys_of kc) vs)
           | Some (Object vs) \<Rightarrow> Inl TypeError
           | Some (Datetime vs) \<Rightarrow> Inl TypeError))"

text \<open>
  The sum of a text column by group: pandas adds the cells of a group with \<^verbatim>\<open>+\<close>, which
  on text is concatenation, and skips the missing ones. A group with no text at all
  keeps the integer 0 that the sum starts from.
\<close>

datatype text_total = NoText | Joined string

definition text_sum :: "string option list \<Rightarrow> text_total" where
  "text_sum ss = (case dropna ss of [] \<Rightarrow> NoText | z # zs \<Rightarrow> Joined (concat (z # zs)))"

definition groupby_text_sum :: "key option list \<Rightarrow> string option list \<Rightarrow> text_total series" where
  "groupby_text_sum ks ss = map (\<lambda>k. (k, text_sum (group_rows k ks ss))) (group_keys ks)"

fun text_of :: "text_total \<Rightarrow> string" where
  "text_of NoText = []"
| "text_of (Joined z) = z"

text \<open>
  \<^verbatim>\<open>sort_values(ascending=False)\<close> of such totals. Python does not compare the integer 0
  with text: a series that holds both raises \<^verbatim>\<open>TypeError\<close>. Texts are compared
  character by character. pandas reverses the series, sorts it in ascending order and
  reverses the result; the sort of Python objects keeps equal texts of a short series in
  the order it finds them, so they come out in index order.
\<close>

definition sort_text_desc :: "text_total series \<Rightarrow> py_error + text_total series" where
  "sort_text_desc s =
     (if list_ex (\<lambda>r. snd r = NoText) s \<and> list_ex (\<lambda>r. snd r \<noteq> NoText) s then Inl TypeError
      else Inr (rev (sort_key (\<lambda>r. text_of (snd r)) (rev s))))"

text \<open>\<^verbatim>\<open>sort_index()\<close>: ascending by index label.\<close>

definition sort_index :: "'v series \<Rightarrow> 'v series" where
  "sort_index s = sort_key fst s"

text \<open>\<^verbatim>\<open>Series.sum()\<close> of an aggregate (it holds no missing value).\<close>

definition series_sum :: "real series \<Rightarrow> real" where
  "series_sum s = sum_list (map snd s)"

text \<open>
  \<^verbatim>\<open>sort_values(ascending=False)\<close>: descending by value. The sort is numpy's default
  kind, which is not stable: the script does not determine the order among rows of equal
  value, which depends on the sort kernel of the machine. Here such rows come in reverse
  index order, and no property below depends on that choice.
\<close>

definition sort_values_desc :: "real series \<Rightarrow> real series" where
  "sort_values_desc s = rev (sort_key snd s)"

text \<open>
  \<^verbatim>\<open>value_counts()\<close> has \<^verbatim>\<open>dropna=True\<close>: the number of rows of each value that is
  not missing, most frequent first. The order among values of equal count is again left
  to the sort kernel; here they stay in order of first appearance.
\<close>

definition value_counts :: "key option list \<Rightarrow> nat series" where
  "value_counts ks =
     sort_key (\<lambda>r. - int (snd r))
       (map (\<lambda>k. (k, count_list (dropna ks) k)) (unique (dropna ks)))"

text \<open>\<^verbatim>\<open>nunique()\<close> has \<^verbatim>\<open>dropna=True\<close> as well.\<close>

definition nunique :: "key option list \<Rightarrow> nat" where
  "nunique ks = length (unique (dropna ks))"

text \<open>\<^verbatim>\<open>mean()\<close> of a series of counts: \<^verbatim>\<open>NaN\<close> when the series is empty.\<close>

definition series_mean :: "nat series \<Rightarrow> real option" where
  "series_mean s =
     (if s = [] then None else Some (real (sum_list (map snd s)) / real (length s)))"

definition head :: "nat \<Rightarrow> 'a list \<Rightarrow> 'a list" where
  "head n s = take n s"

text \<open>
  \<^verbatim>\<open>idxmax()\<close> / \<^verbatim>\<open>idxmin()\<close>: the label of the first row holding the extreme value;
  \<^verbatim>\<open>ValueError\<close> on an empty series. \<^verbatim>\<open>max()\<close> / \<^verbatim>\<open>min()\<close> of an empty series
  are \<^verbatim>\<open>NaN\<close>.
\<close>

fun argmax_from :: "key \<times> real \<Rightarrow> real series \<Rightarrow> key \<times> real" where
  "argmax_from best [] = best"
| "argmax_from best (r # rest) = argmax_from (if snd best < snd r then r else best) rest"

fun argmin_from :: "key \<times> real \<Rightarrow> real series \<Rightarrow> key \<times> real" where
  "argmin_from best [] = best"
| "argmin_from best (r # rest) = argmin_from (if snd r < snd best then r else best) rest"

definition idxmax :: "real series \<Rightarrow> py_error + key" where
  "idxmax s = (case s of [] \<Rightarrow> Inl ValueError | r # rest \<Rightarrow> Inr (fst (argmax_from r rest)))"

definition idxmin :: "real series \<Rightarrow> py_error + key" where
  "idxmin s = (case s of [] \<Rightarrow> Inl ValueError | r # rest \<Rightarrow> Inr (fst (argmin_from r rest)))"

definition series_max :: "real series \<Rightarrow> real option" where
  "series_max s = (case s of [] \<Rightarrow> None | r # rest \<Rightarrow> Some (fold max (map snd rest) (snd r)))"

definition series_min :: "real series \<Rightarrow> real option" where
  "series_min s = (case s of [] \<Rightarrow> None | r # rest \<Rightarrow> Some (fold min (map snd rest) (snd r)))"

subsection \<open>Division as numpy does it\<close>

text \<open>
  Dividing by zero raises nothing in numpy (the script silences the warning): the result
  is an infinity, or \<^verbatim>\<open>NaN\<close> for \<^verbatim>\<open>0/0\<close>. A comparison with \<^verbatim>\<open>NaN\<close> is false.
\<close>

datatype xreal = Finite real | PosInf | NegInf | NotANumber

definition true_divide :: "real \<Rightarrow> real \<Rightarrow> xreal" where
  "true_divide a b =
     (if b \<noteq> 0 then Finite (a / b)
      else if 0 < a then PosInf
      else if a < 0 then NegInf
      else NotANumber)"

fun times100 :: "xreal \<Rightarrow> xreal" where
  "times100 (Finite x) = Finite (x * 100)"
| "times100 PosInf = PosInf"
| "times100 NegInf = NegInf"
| "times100 NotANumber = NotANumber"

fun xle :: "xreal \<Rightarrow> real \<Rightarrow> bool" where
  "xle (Finite x) c = (x \<le> c)"
| "xle PosInf c = False"
| "xle NegInf c = True"
| "xle NotANumber c = False"

fun cumsum_from :: "real \<Rightarrow> real list \<Rightarrow> real list" where
  "cumsum_from acc [] = []"
| "cumsum_from acc (x # xs) = (acc + x) # cumsum_from (acc + x) xs"

definition cumsum :: "real list \<Rightarrow> real list" where
  "cumsum xs = cumsum_from 0 xs"

text \<open>
  Lines 125 to 127: the cumulative share of revenue by rank, in percent, and the number
  of ranks whose share is at most 80. The share is the exact quotient here. The script
  compares its \<^verbatim>\<open>float64\<close> value with 80, which decides the same on whole amounts of
  bounded size and can decide otherwise for a share within rounding distance of the
  mark; the property of the count is stated with that condition.
\<close>

definition cumulative_pct :: "real series \<Rightarrow> xreal list" where
  "cumulative_pct product_revenue =
     (let total_revenue = series_sum product_revenue
      in map (\<lambda>c. times100 (true_divide c total_revenue)) (cumsum (map snd product_revenue)))"

definition top_20_pct :: "real series \<Rightarrow> nat" where
  "top_20_pct product_revenue =
     length (filter (\<lambda>p. xle p 80) (cumulative_pct product_revenue))"

subsection \<open>Correlation\<close>

text \<open>
  \<^verbatim>\<open>DataFrame.corr()\<close>: Pearson's coefficient of every pair of columns over the rows
  where both hold a value. The coefficient is \<^verbatim>\<open>NaN\<close> when no such row exists or when
  the divisor is zero. pandas computes the entries on and below the diagonal and
  mirrors them. The sums of squares and their product are the exact ones here; in
  \<^verbatim>\<open>float64\<close> they are rounded, and a product that underflows or overflows gives
  \<^verbatim>\<open>NaN\<close> where the exact coefficient is a number.
\<close>

fun both :: "real option \<times> real option \<Rightarrow> (real \<times> real) option" where
  "both (Some x, Some y) = Some (x, y)"
| "both (None, b) = None"
| "both (a, None) = None"

definition complete_pairs :: "real option list \<Rightarrow> real option list \<Rightarrow> (real \<times> real) list" where
  "complete_pairs xs ys = dropna (map both (zip xs ys))"

definition mean :: "real list \<Rightarrow> real" where
  "mean zs = sum_list zs / real (length zs)"

definition pearson :: "real option list \<Rightarrow> real option list \<Rightarrow> real option" where
  "pearson xs ys =
     (let ps = complete_pairs xs ys;
          nobs = length ps
      in if nobs < 1 then None
         else
           (let meanx = mean (map fst ps);
                meany = mean (map snd ps);
                ssqdmx = sum_list (map (\<lambda>p. (fst p - meanx) * (fst p - meanx)) ps);
                ssqdmy = sum_list (map (\<lambda>p. (snd p - meany) * (snd p - meany)) ps);
                covxy = sum_list (map (\<lambda>p. (fst p - meanx) * (snd p - meany)) ps);
                divisor = sqrt (ssqdmx * ssqdmy)
            in if divisor \<noteq> 0 then Some (covxy / divisor) else None))"

definition corr :: "real option list list \<Rightarrow> real option list list" where
  "corr cols =
     map (\<lambda>i. map (\<lambda>j. if j \<le> i then pearson (cols ! i) (cols ! j)
                        else pearson (cols ! j) (cols ! i))
                [0..<length cols])
         [0..<length cols]"

text \<open>\<^verbatim>\<open>df.select_dtypes(include=[np.number])\<close>.\<close>

fun select_numeric :: "dataframe \<Rightarrow> (string \<times> real option list) list" where
  "select_numeric [] = []"
| "select_numeric ((n, Numeric xs) # df) = (n, xs) # select_numeric df"
| "select_numeric ((n, Object xs) # df) = select_numeric df"
| "select_numeric ((n, Datetime xs) # df) = select_numeric df"

section \<open>The report\<close>

text \<open>
  What a run leaves behind: the lines it prints, in order, and the image files it saves.
  A printed line carries the values the script formats into it; the formatting of
  numbers and the styling of the charts are not modelled. The \<^verbatim>\<open>results/\<close> directory is
  taken to exist and to be writable, as the script takes it.
\<close>

datatype dtype = NumberDtype | ObjectDtype | DatetimeDtype

datatype summary =
    NumericSummary nat "real option" "real option" "real option"
  | DatetimeSummary nat "timestamp option" "timestamp option"
  | ObjectSummary nat nat

datatype line =
    Text string
  | Shape nat nat
  | Columns "string list"
  | DataTypes "(string \<times> dtype) list"
  | MissingValues "(string \<times> nat) list"
  | BasicStatistics "(string \<times> summary) list"
  | MonthlySales "real series"
  | BestMonth key "real option"
  | WorstMonth key "real option"
  | TotalUniqueCustomers nat
  | AveragePurchases "real option"
  | Counts "nat series"
  | Amounts "real series"
  | TextAmounts "text_total series"
  | TopProducts nat xreal
  | CorrelationMatrix "string list" "real option list list"

datatype event = Print line | Savefig string

text \<open>A failed step ends the run with the exception; otherwise the events it produced.\<close>

type_synonym outcome = "py_error + event list"

definition and_then :: "py_error + 'a \<Rightarrow> ('a \<Rightarrow> py_error + 'b) \<Rightarrow> py_error + 'b" where
  "and_then r f = (case r of Inl e \<Rightarrow> Inl e | Inr x \<Rightarrow> f x)"

text \<open>The three prints every section opens with; the first starts with a newline.\<close>

definition banner :: "nat \<Rightarrow> string \<Rightarrow> event list" where
  "banner w title =
     [Print (Text (CHR 0x0A # replicate w (CHR ''=''))),
      Print (Text title),
      Print (Text (replicate w (CHR ''='')))]"

subsection \<open>Descriptive statistics (lines 34 to 43)\<close>

fun dtype_of :: "column \<Rightarrow> dtype" where
  "dtype_of (Numeric xs) = NumberDtype"
| "dtype_of (Object xs) = ObjectDtype"
| "dtype_of (Datetime xs) = DatetimeDtype"

fun null_count :: "column \<Rightarrow> nat" where
  "null_count (Numeric xs) = length (filter (\<lambda>x. x = None) xs)"
| "null_count (Object xs) = length (filter (\<lambda>x. x = None) xs)"
| "null_count (Datetime xs) = length (filter (\<lambda>x. x = None) xs)"

definition list_mean :: "real list \<Rightarrow> real option" where
  "list_mean zs = (if zs = [] then None else Some (sum_list zs / real (length zs)))"

definition list_min :: "real list \<Rightarrow> real option" where
  "list_min zs = (case zs of [] \<Rightarrow> None | z # rest \<Rightarrow> Some (fold min rest z))"

definition list_max :: "real list \<Rightarrow> real option" where
  "list_max zs = (case zs of [] \<Rightarrow> None | z # rest \<Rightarrow> Some (fold max rest z))"

definition numeric_summary :: "real option list \<Rightarrow> summary" where
  "numeric_summary xs =
     (let zs = dropna xs in NumericSummary (length zs) (list_mean zs) (list_min zs) (list_max zs))"

definition object_summary :: "column \<Rightarrow> summary" where
  "object_summary c =
     (let ks = dropna (keys_of c) in ObjectSummary (length ks) (length (unique ks)))"

definition earlier :: "timestamp \<Rightarrow> timestamp \<Rightarrow> timestamp" where
  "earlier a b = (if stamp_tuple a \<le> stamp_tuple b then a else b)"

definition later :: "timestamp \<Rightarrow> timestamp \<Rightarrow> timestamp" where
  "later a b = (if stamp_tuple a \<le> stamp_tuple b then b else a)"

definition datetime_summary :: "timestamp option list \<Rightarrow> summary" where
  "datetime_summary ts =
     (case dropna ts of
        [] \<Rightarrow> DatetimeSummary 0 None None
      | t # rest \<Rightarrow>
          DatetimeSummary (length (t # rest)) (Some (fold earlier rest t))
            (Some (fold later rest t)))"

text \<open>
  \<^verbatim>\<open>df.describe()\<close> summarises the numeric and the timestamp columns of the frame, in
  frame order, and every column when the frame has neither kind. The summary of a
  numeric column is its count, mean, minimum and maximum, that of a timestamp column
  its count, earliest and latest value (an empty column has count 0 and \<^verbatim>\<open>NaN\<close> or
  \<^verbatim>\<open>NaT\<close> elsewhere), that of a column of a frame with neither kind its count and its
  number of distinct values. The standard deviation, the quartiles, the mean timestamp
  and the most frequent value that pandas prints with them are left out. A frame with no
  column at all is refused with \<^verbatim>\<open>ValueError\<close>.
\<close>

fun select_described :: "dataframe \<Rightarrow> (string \<times> summary) list" where
  "select_described [] = []"
| "select_described ((n, Numeric xs) # df) = (n, numeric_summary xs) # select_described df"
| "select_described ((n, Object xs) # df) = select_described df"
| "select_described ((n, Datetime ts) # df) = (n, datetime_summary ts) # select_described df"

definition describe :: "dataframe \<Rightarrow> py_error + (string \<times> summary) list" where
  "describe df =
     (if df = [] then Inl ValueError
      else if select_described df \<noteq> [] then Inr (select_described df)
      else Inr (map (\<lambda>(n, c). (n, object_summary c)) df))"

definition basic_statistics :: "dataframe \<Rightarrow> outcome" where
  "basic_statistics df =
     and_then (describe df) (\<lambda>stats.
       Inr (banner 50 ''DATASET OVERVIEW'' @
            [Print (Shape (nrows df) (length (columns df))),
             Print (Columns (columns df)),
             Print (DataTypes (map (\<lambda>(n, c). (n, dtype_of c)) df)),
             Print (MissingValues (map (\<lambda>(n, c). (n, null_count c)) df)),
             Print (BasicStatistics stats)]))"

subsection \<open>Sales trends (lines 45 to 67)\<close>

text \<open>
  \<^verbatim>\<open>plot(kind='bar')\<close> and \<^verbatim>\<open>plot(kind='barh')\<close> place the axis limits at the first and
  the last bar: on a series with no row that read is out of range. A chart that is
  drawn is then saved under the given name.
\<close>

definition bar_chart :: "real series \<Rightarrow> string \<Rightarrow> outcome" where
  "bar_chart s file = (if s = [] then Inl IndexError else Inr [Savefig file])"

text \<open>Line 53: the sum of the monetary column per month, in ascending month order.\<close>

definition monthly_sales :: "dataframe \<Rightarrow> py_error + real series" where
  "monthly_sales df =
     and_then (groupby_column_sum df ''Month'' ''TotalAmount'') (\<lambda>grouped.
       Inr (sort_index grouped))"

definition sales_trends_analysis :: "dataframe \<Rightarrow> outcome" where
  "sales_trends_analysis df =
     (if ''TotalAmount'' \<in> set (columns df) \<and> ''Month'' \<in> set (columns df) then
        and_then (monthly_sales df) (\<lambda>series.
        and_then (bar_chart series ''results/monthly_sales_trend.png'') (\<lambda>chart.
        and_then (idxmax series) (\<lambda>best.
        and_then (idxmin series) (\<lambda>worst.
          Inr (banner 50 ''SALES TRENDS ANALYSIS'' @ chart @
               [Print (MonthlySales series),
                Print (BestMonth best (series_max series)),
                Print (WorstMonth worst (series_min series))])))))
      else Inr (banner 50 ''SALES TRENDS ANALYSIS''))"

subsection \<open>Customer behaviour (lines 69 to 99)\<close>

text \<open>Line 77: how many rows each customer has.\<close>

definition customer_freq :: "dataframe \<Rightarrow> py_error + nat series" where
  "customer_freq df =
     (case map_of df ''CustomerID'' of
        None \<Rightarrow> Inl KeyError
      | Some c \<Rightarrow> Inr (value_counts (keys_of c)))"

text \<open>Line 79: \<^verbatim>\<open>df['CustomerID'].nunique()\<close>.\<close>

definition unique_customers :: "dataframe \<Rightarrow> py_error + nat" where
  "unique_customers df =
     (case map_of df ''CustomerID'' of
        None \<Rightarrow> Inl KeyError
      | Some c \<Rightarrow> Inr (nunique (keys_of c)))"

text \<open>
  Line 86: the sum of the monetary column per customer, largest first. The column is
  numeric or text here (a timestamp column is refused by the sum); a text column gives
  the concatenated texts.
\<close>

datatype totals = Sums "real series" | Joins "text_total series"

definition customer_spending :: "dataframe \<Rightarrow> py_error + totals" where
  "customer_spending df =
     (case map_of df ''CustomerID'' of
        None \<Rightarrow> Inl KeyError
      | Some kc \<Rightarrow>
          (case map_of df ''TotalAmount'' of
             None \<Rightarrow> Inl KeyError
           | Some (Numeric vs) \<Rightarrow> Inr (Sums (sort_values_desc (groupby_sum (keys_of kc) vs)))
           | Some (Object ss) \<Rightarrow>
               and_then (sort_text_desc (groupby_text_sum (keys_of kc) ss)) (\<lambda>sorted.
                 Inr (Joins sorted))
           | Some (Datetime ts) \<Rightarrow> Inl TypeError))"

text \<open>\<^verbatim>\<open>print(customer_spending.head(10))\<close>.\<close>

fun top_totals :: "nat \<Rightarrow> totals \<Rightarrow> line" where
  "top_totals n (Sums s) = Amounts (head n s)"
| "top_totals n (Joins s) = TextAmounts (head n s)"

text \<open>
  Lines 85 to 99. \<^verbatim>\<open>plt.hist\<close> accepts a series of numbers or of texts, the empty one
  too.
\<close>

definition customer_spending_report :: "dataframe \<Rightarrow> outcome" where
  "customer_spending_report df =
     (if ''TotalAmount'' \<in> set (columns df) then
        and_then (customer_spending df) (\<lambda>spending.
          Inr [Print (Text (CHR 0x0A # ''Top 10 Customers by Spending:'')),
               Print (top_totals 10 spending),
               Savefig ''results/customer_spending_dist.png''])
      else Inr [])"

definition customer_behavior_analysis :: "dataframe \<Rightarrow> outcome" where
  "customer_behavior_analysis df =
     (if ''CustomerID'' \<in> set (columns df) then
        and_then (customer_freq df) (\<lambda>freq.
        and_then (unique_customers df) (\<lambda>n.
        and_then (customer_spending_report df) (\<lambda>spending.
          Inr (banner 50 ''CUSTOMER BEHAVIOR INSIGHTS'' @
               [Print (TotalUniqueCustomers n),
                Print (AveragePurchases (series_mean freq)),
                Print (Text (CHR 0x0A # ''Top 10 Customers by Purchase Frequency:'')),
                Print (Counts (head 10 freq))] @ spending))))
      else Inr (banner 50 ''CUSTOMER BEHAVIOR INSIGHTS''))"

subsection \<open>Revenue drivers (lines 101 to 130)\<close>

text \<open>Line 109: the sum of the monetary column per product, largest first.\<close>

definition product_revenue :: "dataframe \<Rightarrow> py_error + real series" where
  "product_revenue df =
     and_then (groupby_column_sum df ''Product'' ''TotalAmount'') (\<lambda>grouped.
       Inr (sort_values_desc grouped))"

definition revenue_driver_analysis :: "dataframe \<Rightarrow> outcome" where
  "revenue_driver_analysis df =
     (if ''Product'' \<in> set (columns df) \<and> ''TotalAmount'' \<in> set (columns df) then
        and_then (product_revenue df) (\<lambda>revenue.
        and_then (bar_chart (head 10 revenue) ''results/top_products_revenue.png'') (\<lambda>chart.
          let n = top_20_pct revenue in
          Inr (banner 50 ''REVENUE DRIVER IDENTIFICATION'' @
               [Print (Text (CHR 0x0A # ''Top 10 Products by Revenue:'')),
                Print (Amounts (head 10 revenue))] @ chart @
               [Print (Text (CHR 0x0A # ''80/20 Rule Analysis:'')),
                Print (TopProducts n
                  (times100 (true_divide (real n) (real (length revenue)))))])))
      else Inr (banner 50 ''REVENUE DRIVER IDENTIFICATION''))"

subsection \<open>Correlation (lines 132 to 151)\<close>

definition statistical_analysis :: "dataframe \<Rightarrow> outcome" where
  "statistical_analysis df =
     (let numeric_cols = select_numeric df in
      if 1 < length numeric_cols then
        (let correlation_matrix = corr (map snd numeric_cols) in
         Inr (banner 50 ''STATISTICAL ANALYSIS'' @
              [Savefig ''results/correlation_matrix.png'',
               Print (CorrelationMatrix (map fst numeric_cols) correlation_matrix)]))
      else Inr (banner 50 ''STATISTICAL ANALYSIS''))"

subsection \<open>The whole report (lines 153 to 168)\<close>

definition generate_report :: "dataframe \<Rightarrow> outcome" where
  "generate_report df =
     and_then (basic_statistics df) (\<lambda>overview.
     and_then (sales_trends_analysis df) (\<lambda>trends.
     and_then (customer_behavior_analysis df) (\<lambda>customers.
     and_then (revenue_driver_analysis df) (\<lambda>revenue.
     and_then (statistical_analysis df) (\<lambda>statistics.
       Inr (banner 70 ''COMPREHENSIVE RETAIL DATA ANALYSIS REPORT'' @
            overview @ trends @ customers @ revenue @ statistics @
            [Print (Text (CHR 0x0A # replicate 70 (CHR ''=''))),
             Print (Text ''ANALYSIS COMPLETE!''),
             Print (Text ''Visualizations saved in 'results/' directory''),
             Print (Text (replicate 70 (CHR ''='')))]))))))"

text \<open>The image files a run has saved, in the order it saved them.\<close>

fun saved_files :: "event list \<Rightarrow> string list" where
  "saved_files [] = []"
| "saved_files (Savefig f # es) = f # saved_files es"
| "saved_files (Print l # es) = saved_files es"

fun printed :: "event list \<Rightarrow> line list" where
  "printed [] = []"
| "printed (Savefig f # es) = printed es"
| "printed (Print l # es) = l # printed es"

section \<open>Loading (lines 19 to 32)\<close>

text \<open>
  \<^verbatim>\<open>pd.read_csv\<close> and \<^verbatim>\<open>pd.to_datetime\<close> are pandas' own: the frame read from the file is
  the input of \<open>load_data\<close>, and the conversion of a column to timestamps is the
  parameter \<open>to_datetime\<close>, which either raises or returns the parsed column, \<^verbatim>\<open>NaT\<close>
  where a cell is missing.
\<close>

text \<open>
  The \<^verbatim>\<open>.dt\<close> accessor exists on a timestamp column only. \<^verbatim>\<open>.dt.year\<close>, \<^verbatim>\<open>.dt.month\<close>
  and \<^verbatim>\<open>.dt.day\<close> read the calendar fields; a \<^verbatim>\<open>NaT\<close> row gives \<^verbatim>\<open>NaN\<close>.
\<close>

definition dt_field :: "(timestamp \<Rightarrow> int) \<Rightarrow> column \<Rightarrow> py_error + column" where
  "dt_field f c =
     (case c of
        Datetime ts \<Rightarrow> Inr (Numeric (map (map_option (\<lambda>t. real_of_int (f t))) ts))
      | Numeric xs \<Rightarrow> Inl AttributeError
      | Object xs \<Rightarrow> Inl AttributeError)"

text \<open>
  \<^verbatim>\<open>.dt.dayofweek\<close>, Monday 0 to Sunday 6, from the calendar fields as pandas computes
  it (Sakamoto's method, shifted from Sunday 0 to Monday 0). The month of a timestamp
  is 1 to 12, so the table is read in range.
\<close>

definition sakamoto_arr :: "int list" where
  "sakamoto_arr = [0, 3, 2, 5, 0, 3, 5, 1, 4, 6, 2, 4]"

definition dayofweek :: "timestamp \<Rightarrow> int" where
  "dayofweek t =
     (let y = (if month t < 3 then year t - 1 else year t);
          d = (y + y div 4 - y div 100 + y div 400
               + sakamoto_arr ! nat (month t - 1) + day t) mod 7
      in (d + 6) mod 7)"

text \<open>\<^verbatim>\<open>df[name] = df['InvoiceDate'].dt.<field>\<close>.\<close>

definition assign_dt :: "string \<Rightarrow> (timestamp \<Rightarrow> int) \<Rightarrow> dataframe \<Rightarrow> py_error + dataframe" where
  "assign_dt name f df =
     (case map_of df ''InvoiceDate'' of
        None \<Rightarrow> Inl KeyError
      | Some c \<Rightarrow> and_then (dt_field f c) (\<lambda>col. Inr (set_column name col df)))"

definition load_data ::
  "(column \<Rightarrow> py_error + timestamp option list) \<Rightarrow> dataframe \<Rightarrow> py_error + dataframe" where
  "load_data to_datetime df =
     (if ''InvoiceDate'' \<in> set (columns df) then
        (case map_of df ''InvoiceDate'' of
           None \<Rightarrow> Inl KeyError
         | Some raw \<Rightarrow>
             and_then (to_datetime raw) (\<lambda>ts.
             and_then (assign_dt ''Year'' year (set_column ''InvoiceDate'' (Datetime ts) df)) (\<lambda>df1.
             and_then (assign_dt ''Month'' month df1) (\<lambda>df2.
             and_then (assign_dt ''Day'' day df2) (\<lambda>df3.
               assign_dt ''DayOfWeek'' dayofweek df3)))))
      else Inr df)"

text \<open>The script itself (lines 170 to 186): load, report, and the closing summary.\<close>

definition main ::
  "(column \<Rightarrow> py_error + timestamp option list) \<Rightarrow> dataframe \<Rightarrow> outcome" where
  "main to_datetime csv =
     and_then (load_data to_datetime csv) (\<lambda>df.
     and_then (generate_report df) (\<lambda>report.
       Inr (Print (Text ''Loading retail data...'') # report @
            banner 70 ''KEY INSIGHTS SUMMARY'' @
            [Print (Text ''1. Sales trends identified across different time periods''),
             Print (Text ''2. Customer behavior patterns and segmentation analyzed''),
             Print (Text ''3. Revenue drivers and top-performing products identified''),
             Print (Text ''4. Statistical relationships between variables discovered''),
             Print (Text ''5. Actionable insights for business decision-making generated''),
             Print (Text (replicate 70 (CHR ''='')))])))"

section \<open>Notions the properties are stated with\<close>

text \<open>The rows of two aligned columns whose key is present.\<close>

definition keyed_rows :: "key option list \<Rightarrow> 'v list \<Rightarrow> 'v list" where
  "keyed_rows ks vs = map snd (filter (\<lambda>r. fst r \<noteq> None) (zip ks vs))"

text \<open>
  Amounts on which the arithmetic of pandas is the exact one: whole numbers whose
  magnitudes add up to at most \<open>2 ^ bits\<close>. With 53 bits every sum of some of the
  amounts is a whole number of magnitude at most \<open>2 ^ 53\<close>, which \<^verbatim>\<open>int64\<close> and
  \<^verbatim>\<open>float64\<close> hold exactly.
\<close>

definition whole_amounts :: "nat \<Rightarrow> real option list \<Rightarrow> bool" where
  "whole_amounts bits vs =
     (list_all (\<lambda>v. real_of_int \<lfloor>v\<rfloor> = v) (dropna vs) \<and>
      sum_list (map abs (dropna vs)) \<le> 2 ^ bits)"

text \<open>The purchase frequencies that a report prints, added up.\<close>

fun reported_frequencies :: "event list \<Rightarrow> nat" where
  "reported_frequencies [] = 0"
| "reported_frequencies (Print (Counts s) # es) = sum_list (map snd s) + reported_frequencies es"
| "reported_frequencies (e # es) = reported_frequencies es"

text \<open>A table has zero rows when every column is empty.\<close>

definition zero_rows :: "dataframe \<Rightarrow> bool" where
  "zero_rows df = list_all (\<lambda>r. col_len (snd r) = 0) df"

text \<open>The column a \<^verbatim>\<open>.dt\<close> field of parsed timestamps makes.\<close>

definition dt_column :: "(timestamp \<Rightarrow> int) \<Rightarrow> timestamp option list \<Rightarrow> column" where
  "dt_column f ts = Numeric (map (map_option (\<lambda>t. real_of_int (f t))) ts)"

text \<open>\<^verbatim>\<open>df[name].iloc[i]\<close> of a numeric column.\<close>

definition numeric_cell :: "dataframe \<Rightarrow> string \<Rightarrow> nat \<Rightarrow> real option" where
  "numeric_cell df name i =
     (case map_of df name of
        Some (Numeric xs) \<Rightarrow> (if i < length xs then xs ! i else None)
      | _ \<Rightarrow> None)"

text \<open>The calendar date of a timestamp, and the date that three calendar cells denote.\<close>

definition normalize :: "timestamp \<Rightarrow> timestamp" where
  "normalize t = t\<lparr>time_ns := 0\<rparr>"

definition date_of_fields :: "real \<Rightarrow> real \<Rightarrow> real \<Rightarrow> timestamp" where
  "date_of_fields y m d = \<lparr>year = \<lfloor>y\<rfloor>, month = \<lfloor>m\<rfloor>, day = \<lfloor>d\<rfloor>, time_ns = 0\<rparr>"

text \<open>
  The number of days from 1970-01-01 to a date of the Gregorian calendar, and the day of
  the week the date falls on: 1970-01-01 was a Thursday, day 3 when Monday is day 0.
\<close>

definition days_from_civil :: "int \<Rightarrow> int \<Rightarrow> int \<Rightarrow> int" where
  "days_from_civil y m d =
     (let y' = (if m \<le> 2 then y - 1 else y);
          era = y' div 400;
          yoe = y' - era * 400;
          doy = (153 * (if 2 < m then m - 3 else m + 9) + 2) div 5 + d - 1;
          doe = yoe * 365 + yoe div 4 - yoe div 100 + doy
      in era * 146097 + doe - 719468)"

definition weekday :: "timestamp \<Rightarrow> int" where
  "weekday t = (days_from_civil (year t) (month t) (day t) + 3) mod 7"

section \<open>Tables used as examples\<close>

text \<open>
  A \<open>to_datetime\<close> for the examples. It stands for \<^verbatim>\<open>pd.to_datetime\<close> on the columns
  of the example tables only, which are text columns holding the two timestamps below,
  written in one format: it parses these and refuses any other text, as pandas does.
  It is not pandas' parser on other columns: \<^verbatim>\<open>pd.to_datetime\<close> reads a numeric column
  as nanoseconds since 1970, where this one gives up. No property is stated with it; the
  properties hold for every \<open>to_datetime\<close>.
\<close>

definition known_dates :: "(string \<times> timestamp) list" where
  "known_dates =
     [(''2024-02-29 10:00'', \<lparr>year = 2024, month = 2, day = 29, time_ns = 36000000000000\<rparr>),
      (''2024-03-01 08:26'', \<lparr>year = 2024, month = 3, day = 1, time_ns = 30360000000000\<rparr>)]"

fun parse_cells :: "string option list \<Rightarrow> py_error + timestamp option list" where
  "parse_cells [] = Inr []"
| "parse_cells (None # xs) = and_then (parse_cells xs) (\<lambda>ts. Inr (None # ts))"
| "parse_cells (Some s # xs) =
     (case map_of known_dates s of
        None \<Rightarrow> Inl ValueError
      | Some t \<Rightarrow> and_then (parse_cells xs) (\<lambda>ts. Inr (Some t # ts)))"

definition example_to_datetime :: "column \<Rightarrow> py_error + timestamp option list" where
  "example_to_datetime c =
     (case c of
        Object xs \<Rightarrow> parse_cells xs
      | Datetime ts \<Rightarrow> Inr ts
      | Numeric xs \<Rightarrow> Inl TypeError)"

text \<open>Three sales of two products; the second has no invoice date, the third no customer.\<close>

definition dated_sales :: dataframe where
  "dated_sales =
     [(''InvoiceDate'', Object [Some ''2024-02-29 10:00'', None, Some ''2024-03-01 08:26'']),
      (''CustomerID'', Numeric [Some 7, Some 7, None]),
      (''Product'', Object [Some ''mug'', Some ''pen'', Some ''mug'']),
      (''TotalAmount'', Numeric [Some 10, Some 2, Some 5])]"

text \<open>A table that came with its calendar columns and without the invoice date.\<close>

definition calendar_only :: dataframe where
  "calendar_only =
     [(''Year'', Numeric [Some 2024]),
      (''Month'', Numeric [Some 2]),
      (''Day'', Numeric [Some 29]),
      (''DayOfWeek'', Numeric [Some 3]),
      (''TotalAmount'', Numeric [Some 10])]"

text \<open>Two sales, the second without an invoice date and so without a month.\<close>

definition undated_sale :: dataframe where
  "undated_sale =
     [(''Month'', Numeric [Some 1, None]),
      (''TotalAmount'', Numeric [Some 10, Some 5])]"

text \<open>Three months, the first two with the same (largest) total.\<close>

definition tied_months :: dataframe where
  "tied_months =
     [(''Month'', Numeric [Some 2, Some 1, Some 3, Some 1]),
      (''TotalAmount'', Numeric [Some 10, Some 4, Some 5, Some 6])]"

text \<open>Four sales, the second to a customer who left no identifier.\<close>

definition walk_in_sale :: dataframe where
  "walk_in_sale =
     [(''CustomerID'', Numeric [Some 7, None, Some 7, Some 3]),
      (''TotalAmount'', Numeric [Some 10, Some 20, Some 5, Some 1])]"

text \<open>A table with the monetary column only.\<close>

definition amounts_only :: dataframe where
  "amounts_only = [(''TotalAmount'', Numeric [Some 10, Some 5])]"

text \<open>Product B was returned more than product A was sold.\<close>

definition refunds :: dataframe where
  "refunds =
     [(''Product'', Object [Some ''A'', Some ''B'']),
      (''TotalAmount'', Numeric [Some 10, Some (- 30)])]"

text \<open>Three products with half, three tenths and a fifth of the revenue.\<close>

definition three_products :: dataframe where
  "three_products =
     [(''Product'', Object [Some ''C'', Some ''A'', Some ''B'', Some ''A'']),
      (''TotalAmount'', Numeric [Some 20, Some 35, Some 30, Some 15])]"

text \<open>A file with the header line only: every column is read as text, with no row.\<close>

definition header_only :: dataframe where
  "header_only =
     [(''InvoiceDate'', Object []),
      (''CustomerID'', Object []),
      (''Product'', Object []),
      (''TotalAmount'', Object [])]"

text \<open>A file with the header line only and the columns of the customer step.\<close>

definition no_customers :: dataframe where
  "no_customers = [(''CustomerID'', Object []), (''TotalAmount'', Object [])]"

text \<open>Eleven sales to eleven customers.\<close>

definition eleven_customers :: dataframe where
  "eleven_customers =
     [(''CustomerID'',
       Numeric [Some 1, Some 2, Some 3, Some 4, Some 5, Some 6, Some 7, Some 8, Some 9,
                Some 10, Some 11])]"

text \<open>A table with the columns of the sales and revenue steps and no row.\<close>

definition no_sales :: dataframe where
  "no_sales = [(''Month'', Numeric []), (''Product'', Object []), (''TotalAmount'', Numeric [])]"


section \<open>Properties\<close>

subsection \<open>Sorting and grouping\<close>

lemma in_columns_iff: "n \<in> set (columns df) \<longleftrightarrow> map_of df n \<noteq> None"
  by (simp add: columns_def map_of_eq_None_iff)

lemma and_then_Inl [simp]: "and_then (Inl e) f = Inl e"
  by (simp add: and_then_def)

lemma and_then_Inr [simp]: "and_then (Inr x) f = f x"
  by (simp add: and_then_def)

lemma sum_list_map_insort_key:
  fixes f :: "'a \<Rightarrow> 'b::comm_monoid_add"
  shows "sum_list (map f (insort_key g x xs)) = f x + sum_list (map f xs)"
  by (induction xs) (auto simp: ac_simps)

lemma sum_list_map_sort_key:
  fixes f :: "'a \<Rightarrow> 'b::comm_monoid_add"
  shows "sum_list (map f (sort_key g xs)) = sum_list (map f xs)"
  by (induction xs) (auto simp: sum_list_map_insort_key)

lemma set_unique [simp]: "set (unique xs) = set xs"
  by (simp add: unique_def)

lemma distinct_unique [simp]: "distinct (unique xs)"
  by (simp add: unique_def)

lemma set_group_keys [simp]: "set (group_keys ks) = set (dropna ks)"
  by (simp add: group_keys_def)

lemma distinct_group_keys [simp]: "distinct (group_keys ks)"
  by (simp add: group_keys_def)

text \<open>
  Every row with a key falls into exactly one group, so the group sums add up to the sum
  over the rows that have a key.
\<close>

lemma sum_over_groups:
  "finite S \<Longrightarrow> set (dropna ks) \<subseteq> S \<Longrightarrow>
   (\<Sum>k\<in>S. nansum (group_rows k ks vs)) = nansum (keyed_rows ks vs)"
proof (induction ks arbitrary: vs)
  case Nil
  then show ?case by (simp add: group_rows_def keyed_rows_def nansum_def)
next
  case (Cons a ks)
  show ?case
  proof (cases vs)
    case Nil
    then show ?thesis by (simp add: group_rows_def keyed_rows_def nansum_def)
  next
    case (Cons v vs')
    show ?thesis
    proof (cases a)
      case None
      with Cons.prems Cons.IH[of vs'] Cons show ?thesis
        by (simp add: group_rows_def keyed_rows_def)
    next
      case (Some k0)
      with Cons.prems have k0: "k0 \<in> S" and sub: "set (dropna ks) \<subseteq> S" by auto
      have step: "nansum (group_rows k (Some k0 # ks) (v # vs')) =
            (if k = k0 then nansum [v] else 0) + nansum (group_rows k ks vs')" for k
        by (cases v) (auto simp: group_rows_def nansum_def)
      have "(\<Sum>k\<in>S. nansum (group_rows k (Some k0 # ks) (v # vs'))) =
            (\<Sum>k\<in>S. if k = k0 then nansum [v] else 0) + (\<Sum>k\<in>S. nansum (group_rows k ks vs'))"
        by (simp add: step sum.distrib)
      also have "\<dots> = nansum [v] + nansum (keyed_rows ks vs')"
        using Cons.IH[OF Cons.prems(1) sub, of vs'] k0 Cons.prems(1) by simp
      also have "\<dots> = nansum (keyed_rows (Some k0 # ks) (v # vs'))"
        by (cases v) (simp_all add: keyed_rows_def nansum_def)
      finally show ?thesis using Some Cons by simp
    qed
  qed
qed

lemma series_sum_groupby_sum:
  "series_sum (groupby_sum ks vs) = nansum (keyed_rows ks vs)"
proof -
  have "series_sum (groupby_sum ks vs) =
        sum_list (map (\<lambda>k. nansum (group_rows k ks vs)) (group_keys ks))"
    by (simp add: series_sum_def groupby_sum_def comp_def)
  also have "\<dots> = (\<Sum>k\<in>set (group_keys ks). nansum (group_rows k ks vs))"
    by (simp add: sum_list_distinct_conv_sum_set)
  also have "\<dots> = nansum (keyed_rows ks vs)"
    by (rule sum_over_groups) simp_all
  finally show ?thesis .
qed

lemma series_sum_sort_index [simp]: "series_sum (sort_index s) = series_sum s"
  by (simp add: series_sum_def sort_index_def sum_list_map_sort_key)

lemma map_fst_groupby_sum [simp]: "map fst (groupby_sum ks vs) = group_keys ks"
  by (simp add: groupby_sum_def comp_def)

lemma sorted_group_keys [simp]: "sorted (group_keys ks)"
  by (simp add: group_keys_def)

lemma sort_index_groupby_sum [simp]: "sort_index (groupby_sum ks vs) = groupby_sum ks vs"
  by (simp add: sort_index_def sort_key_id_if_sorted)

lemma fst_set_groupby_sum: "fst ` set (groupby_sum ks vs) = set (dropna ks)"
  by (simp add: groupby_sum_def image_image)

lemma groupby_sum_entry:
  "r \<in> set (groupby_sum ks vs) \<Longrightarrow> snd r = nansum (group_rows (fst r) ks vs)"
  by (auto simp: groupby_sum_def)

subsection \<open>The monthly series and the table's total\<close>

text \<open>
  Claim C1, as the code has it. The claim says that the monthly sums add up to the sum
  of the monetary column over the whole table. \<open>groupby\<close> leaves out the rows whose
  month is missing: the second sale of \<open>dated_sales\<close> has no invoice date, so its month
  is \<^verbatim>\<open>NaN\<close> after loading; the monthly series sums to 15 and the monetary column
  to 17.
\<close>

theorem monthly_sales_total_counterexample:
  "map_of dated_sales ''TotalAmount'' = Some (Numeric [Some 10, Some 2, Some 5]) \<and>
   and_then (load_data example_to_datetime dated_sales) monthly_sales =
     Inr [(KNum 2, 10), (KNum 3, 5)] \<and>
   series_sum [(KNum 2, 10), (KNum 3, 5)] \<noteq> nansum [Some 10, Some 2, Some 5]"
  by (simp add: dated_sales_def load_data_def columns_def example_to_datetime_def
      known_dates_def and_then_def assign_dt_def dt_field_def monthly_sales_def
      groupby_column_sum_def groupby_sum_def group_keys_def unique_def group_rows_def
      nansum_def sort_index_def series_sum_def less_eq_key_def)

text \<open>
  Claim C1, amended: for every table with a month column and a numeric monetary column
  whose amounts are whole numbers with magnitudes adding up to at most \<open>2 ^ 53\<close>, the
  monthly series is computed, it has one entry for every month that occurs, the entry of
  a month is the sum of the amounts of the rows of that month, and the entries add up to
  the sum of the monetary column over the rows whose month is present: each such row is
  counted once, and a missing amount counts as 0 on both sides. The condition on the
  amounts is the arithmetic caveat: for such amounts every sum involved is one that
  \<^verbatim>\<open>int64\<close> and \<^verbatim>\<open>float64\<close> form exactly. With fractional or larger amounts the two
  sides are sums that pandas forms in different orders, and they can differ by the
  rounding of \<^verbatim>\<open>float64\<close> (or the wrap-around of \<^verbatim>\<open>int64\<close>).
\<close>

theorem monthly_sales_total:
  assumes "map_of df ''Month'' = Some mc"
      and "map_of df ''TotalAmount'' = Some (Numeric vs)"
      and "whole_amounts 53 vs"
  shows "\<exists>ms. monthly_sales df = Inr ms \<and>
           fst ` set ms = set (dropna (keys_of mc)) \<and> distinct (map fst ms) \<and>
           (\<forall>r\<in>set ms. snd r = nansum (group_rows (fst r) (keys_of mc) vs)) \<and>
           series_sum ms = nansum (keyed_rows (keys_of mc) vs)"
  using assms(1,2)
  by (simp add: monthly_sales_def groupby_column_sum_def and_then_def series_sum_groupby_sum
      fst_set_groupby_sum groupby_sum_entry)

theorem monthly_sales_total_witness:
  "map_of undated_sale ''Month'' = Some (Numeric [Some 1, None]) \<and>
   map_of undated_sale ''TotalAmount'' = Some (Numeric [Some 10, Some 5]) \<and>
   whole_amounts 53 [Some 10, Some 5] \<and>
   (\<exists>ms. monthly_sales undated_sale = Inr ms \<and> fst ` set ms = {KNum 1} \<and>
         series_sum ms = 10)"
proof -
  have m: "map_of undated_sale ''Month'' = Some (Numeric [Some 1, None])"
    by (simp add: undated_sale_def)
  have a: "map_of undated_sale ''TotalAmount'' = Some (Numeric [Some 10, Some 5])"
    by (simp add: undated_sale_def)
  have w: "whole_amounts 53 [Some 10, Some 5]"
    by (simp add: whole_amounts_def)
  have keys: "set (dropna (keys_of (Numeric [Some 1, None]))) = {KNum 1}" by simp
  have rows: "nansum (keyed_rows (keys_of (Numeric [Some 1, None])) [Some 10, Some 5]) = 10"
    by (simp add: keyed_rows_def nansum_def)
  from monthly_sales_total [OF m a w] obtain ms where
    "monthly_sales undated_sale = Inr ms"
    "fst ` set ms = set (dropna (keys_of (Numeric [Some 1, None])))"
    "series_sum ms = nansum (keyed_rows (keys_of (Numeric [Some 1, None])) [Some 10, Some 5])"
    by blast
  with m a w show ?thesis unfolding keys rows by blast
qed

subsection \<open>Best and worst month\<close>

lemma argmax_from_value: "snd (argmax_from b rest) = fold max (map snd rest) (snd b)"
  by (induction rest arbitrary: b) (auto simp: max_def)

lemma argmin_from_value: "snd (argmin_from b rest) = fold min (map snd rest) (snd b)"
  by (induction rest arbitrary: b) (auto simp: min_def)

lemma argmax_from_first:
  "sorted_wrt (<) (map fst (b # rest)) \<Longrightarrow>
   argmax_from b rest \<in> set (b # rest) \<and>
   (\<forall>r\<in>set (b # rest). snd r \<le> snd (argmax_from b rest) \<and>
      (snd r = snd (argmax_from b rest) \<longrightarrow> fst (argmax_from b rest) \<le> fst r))"
proof (induction rest arbitrary: b)
  case Nil
  then show ?case by simp
next
  case (Cons r rest)
  let ?b = "if snd b < snd r then r else b"
  from Cons.prems have sorted': "sorted_wrt (<) (map fst (?b # rest))" by auto
  from Cons.prems have br: "fst b < fst r" by simp
  note IH = Cons.IH[OF sorted']
  have res: "argmax_from b (r # rest) = argmax_from ?b rest" by simp
  from IH have mem: "argmax_from ?b rest \<in> set (?b # rest)" by blast
  from IH have top: "snd ?b \<le> snd (argmax_from ?b rest)" by simp
  from IH have tie: "snd ?b = snd (argmax_from ?b rest) \<Longrightarrow> fst (argmax_from ?b rest) \<le> fst ?b"
    by simp
  have b: "snd b \<le> snd (argmax_from ?b rest) \<and>
        (snd b = snd (argmax_from ?b rest) \<longrightarrow> fst (argmax_from ?b rest) \<le> fst b)"
    using top tie by (auto split: if_splits)
  have r: "snd r \<le> snd (argmax_from ?b rest) \<and>
        (snd r = snd (argmax_from ?b rest) \<longrightarrow> fst (argmax_from ?b rest) \<le> fst r)"
    using top tie br by (auto split: if_splits)
  have rest: "\<forall>x\<in>set rest. snd x \<le> snd (argmax_from ?b rest) \<and>
        (snd x = snd (argmax_from ?b rest) \<longrightarrow> fst (argmax_from ?b rest) \<le> fst x)"
    using IH by simp
  from mem have "argmax_from ?b rest \<in> set (b # r # rest)" by (auto split: if_splits)
  with b r rest show ?case unfolding res by simp
qed

lemma argmin_from_first:
  "sorted_wrt (<) (map fst (b # rest)) \<Longrightarrow>
   argmin_from b rest \<in> set (b # rest) \<and>
   (\<forall>r\<in>set (b # rest). snd (argmin_from b rest) \<le> snd r \<and>
      (snd r = snd (argmin_from b rest) \<longrightarrow> fst (argmin_from b rest) \<le> fst r))"
proof (induction rest arbitrary: b)
  case Nil
  then show ?case by simp
next
  case (Cons r rest)
  let ?b = "if snd r < snd b then r else b"
  from Cons.prems have sorted': "sorted_wrt (<) (map fst (?b # rest))" by auto
  from Cons.prems have br: "fst b < fst r" by simp
  note IH = Cons.IH[OF sorted']
  have res: "argmin_from b (r # rest) = argmin_from ?b rest" by simp
  from IH have mem: "argmin_from ?b rest \<in> set (?b # rest)" by blast
  from IH have top: "snd (argmin_from ?b rest) \<le> snd ?b" by simp
  from IH have tie: "snd ?b = snd (argmin_from ?b rest) \<Longrightarrow> fst (argmin_from ?b rest) \<le> fst ?b"
    by simp
  have b: "snd (argmin_from ?b rest) \<le> snd b \<and>
        (snd b = snd (argmin_from ?b rest) \<longrightarrow> fst (argmin_from ?b rest) \<le> fst b)"
    using top tie by (auto split: if_splits)
  have r: "snd (argmin_from ?b rest) \<le> snd r \<and>
        (snd r = snd (argmin_from ?b rest) \<longrightarrow> fst (argmin_from ?b rest) \<le> fst r)"
    using top tie br by (auto split: if_splits)
  have rest: "\<forall>x\<in>set rest. snd (argmin_from ?b rest) \<le> snd x \<and>
        (snd x = snd (argmin_from ?b rest) \<longrightarrow> fst (argmin_from ?b rest) \<le> fst x)"
    using IH by simp
  from mem have "argmin_from ?b rest \<in> set (b # r # rest)" by (auto split: if_splits)
  with b r rest show ?case unfolding res by simp
qed

lemma monthly_sales_ascending:
  "monthly_sales df = Inr ms \<Longrightarrow> sorted_wrt (<) (map fst ms)"
  by (auto simp: monthly_sales_def groupby_column_sum_def and_then_def strict_sorted_iff
      split: option.splits column.splits)

lemma map_of_columns: "map_of df n = Some c \<Longrightarrow> n \<in> set (columns df)"
  by (auto simp: columns_def dest: map_of_SomeD intro: rev_image_eqI)

lemma monthly_sales_columns:
  "monthly_sales df = Inr ms \<Longrightarrow> ''TotalAmount'' \<in> set (columns df) \<and> ''Month'' \<in> set (columns df)"
  by (auto simp: monthly_sales_def groupby_column_sum_def and_then_def map_of_columns
      split: option.splits column.splits)

text \<open>
  Claim C5: whenever the monthly series has at least one month, the step completes and
  reports as best month a month whose sum is the maximum of the series, and as worst
  month one whose sum is the minimum; among months with the same extreme sum it reports
  the earliest.
\<close>

theorem best_and_worst_month:
  assumes "monthly_sales df = Inr ms" and "ms \<noteq> []"
  shows "\<exists>best hi worst lo.
     sales_trends_analysis df =
       Inr (banner 50 ''SALES TRENDS ANALYSIS'' @
            [Savefig ''results/monthly_sales_trend.png'',
             Print (MonthlySales ms),
             Print (BestMonth best (Some hi)),
             Print (WorstMonth worst (Some lo))]) \<and>
     (best, hi) \<in> set ms \<and>
     (\<forall>r\<in>set ms. snd r \<le> hi \<and> (snd r = hi \<longrightarrow> best \<le> fst r)) \<and>
     (worst, lo) \<in> set ms \<and>
     (\<forall>r\<in>set ms. lo \<le> snd r \<and> (snd r = lo \<longrightarrow> worst \<le> fst r))"
proof -
  from assms(2) obtain b rest where ms: "ms = b # rest" by (cases ms) auto
  from monthly_sales_ascending[OF assms(1)] ms
  have asc: "sorted_wrt (<) (map fst (b # rest))" by simp
  let ?hi = "argmax_from b rest" and ?lo = "argmin_from b rest"
  have run: "sales_trends_analysis df =
       Inr (banner 50 ''SALES TRENDS ANALYSIS'' @
            [Savefig ''results/monthly_sales_trend.png'',
             Print (MonthlySales ms),
             Print (BestMonth (fst ?hi) (Some (snd ?hi))),
             Print (WorstMonth (fst ?lo) (Some (snd ?lo)))])"
    using monthly_sales_columns[OF assms(1)] assms(1) ms
    by (simp add: sales_trends_analysis_def and_then_def bar_chart_def idxmax_def idxmin_def
        series_max_def series_min_def argmax_from_value argmin_from_value)
  from argmax_from_first[OF asc] argmin_from_first[OF asc] run ms
  show ?thesis
    by (intro exI[of _ "fst ?hi"] exI[of _ "snd ?hi"] exI[of _ "fst ?lo"] exI[of _ "snd ?lo"])
       simp
qed

theorem best_and_worst_month_witness:
  "monthly_sales tied_months = Inr [(KNum 1, 10), (KNum 2, 10), (KNum 3, 5)] \<and>
   [(KNum 1, 10), (KNum 2, 10), (KNum 3, 5 :: real)] \<noteq> [] \<and>
   sales_trends_analysis tied_months =
       Inr (banner 50 ''SALES TRENDS ANALYSIS'' @
            [Savefig ''results/monthly_sales_trend.png'',
             Print (MonthlySales [(KNum 1, 10), (KNum 2, 10), (KNum 3, 5)]),
             Print (BestMonth (KNum 1) (Some 10)),
             Print (WorstMonth (KNum 3) (Some 5))])"
proof -
  let ?ms = "[(KNum 1, 10), (KNum 2, 10), (KNum 3, 5 :: real)]"
  have ms: "monthly_sales tied_months = Inr ?ms"
    by (simp add: tied_months_def monthly_sales_def groupby_column_sum_def and_then_def
        groupby_sum_def group_keys_def unique_def group_rows_def nansum_def sort_index_def
        less_eq_key_def)
  have ne: "?ms \<noteq> []" by simp
  from best_and_worst_month [OF ms ne] obtain best hi worst lo where
    run: "sales_trends_analysis tied_months =
       Inr (banner 50 ''SALES TRENDS ANALYSIS'' @
            [Savefig ''results/monthly_sales_trend.png'',
             Print (MonthlySales ?ms),
             Print (BestMonth best (Some hi)),
             Print (WorstMonth worst (Some lo))])" and
    best: "(best, hi) \<in> set ?ms"
      "\<forall>r\<in>set ?ms. snd r \<le> hi \<and> (snd r = hi \<longrightarrow> best \<le> fst r)" and
    worst: "(worst, lo) \<in> set ?ms"
      "\<forall>r\<in>set ?ms. lo \<le> snd r \<and> (snd r = lo \<longrightarrow> worst \<le> fst r)"
    by blast
  from best have "best = KNum 1 \<and> hi = 10" by (auto simp: less_eq_key_def)
  moreover from worst have "worst = KNum 3 \<and> lo = 5" by (auto simp: less_eq_key_def)
  ultimately show ?thesis using ms ne run by simp
qed

subsection \<open>Customers without an identifier\<close>

lemma set_map_sort_key [simp]: "set (map f (sort_key g xs)) = f ` set xs"
  by simp

lemma distinct_map_insort_key:
  "distinct (map f (insort_key g x xs)) = (f x \<notin> f ` set xs \<and> distinct (map f xs))"
  by (induction xs) (auto simp: set_insort_key)

lemma distinct_map_sort_key [simp]:
  "distinct (map f (sort_key g xs)) = distinct (map f xs)"
  by (induction xs) (auto simp: distinct_map_insort_key)

lemma length_dropna_plus:
  "length (dropna xs) + length (filter (\<lambda>x. x = None) xs) = length xs"
  by (induction xs rule: dropna.induct) simp_all

lemma length_dropna: "length (dropna xs) = length xs - length (filter (\<lambda>x. x = None) xs)"
  using length_dropna_plus[of xs] by linarith

lemma null_count_keys_of:
  "length (filter (\<lambda>x. x = None) (keys_of c)) = null_count c"
  by (cases c) (simp_all add: filter_map comp_def)

lemma length_keys_of [simp]: "length (keys_of c) = col_len c"
  by (cases c) simp_all

lemma present_keys: "length (dropna (keys_of c)) = col_len c - null_count c"
  by (simp add: length_dropna null_count_keys_of)

lemma count_list_dropna: "count_list (dropna xs) k = length (filter (\<lambda>x. x = Some k) xs)"
  by (induction xs rule: dropna.induct) auto

lemma set_value_counts: "fst ` set (value_counts ks) = set (dropna ks)"
  by (simp add: value_counts_def image_image)

lemma distinct_value_counts: "distinct (map fst (value_counts ks))"
  by (simp add: value_counts_def comp_def)

lemma value_counts_entry:
  "r \<in> set (value_counts ks) \<Longrightarrow> snd r = length (filter (\<lambda>x. x = Some (fst r)) ks)"
  by (auto simp: value_counts_def count_list_dropna)

lemma sum_value_counts: "sum_list (map snd (value_counts ks)) = length (dropna ks)"
proof -
  have "sum_list (map snd (value_counts ks)) =
        sum_list (map (count_list (dropna ks)) (unique (dropna ks)))"
    by (simp add: value_counts_def sum_list_map_sort_key comp_def)
  also have "\<dots> = sum (count_list (dropna ks)) (set (dropna ks))"
    by (simp add: sum_list_distinct_conv_sum_set)
  also have "\<dots> = length (dropna ks)"
    by (rule sum_count_set) simp_all
  finally show ?thesis .
qed

lemma nunique_card: "nunique ks = card (set (dropna ks))"
proof -
  have "card (set (unique (dropna ks))) = length (unique (dropna ks))"
    by (rule distinct_card) simp
  then show ?thesis by (simp add: nunique_def)
qed

lemma series_sum_sort_values_desc [simp]: "series_sum (sort_values_desc s) = series_sum s"
  by (simp add: series_sum_def sort_values_desc_def sum_list_map_sort_key rev_map [symmetric]
      del: rev_map)

lemma set_sort_values_desc [simp]: "set (sort_values_desc s) = set s"
  by (simp add: sort_values_desc_def)

lemma distinct_sort_values_desc [simp]:
  "distinct (map fst (sort_values_desc s)) = distinct (map fst s)"
  by (simp add: sort_values_desc_def rev_map [symmetric] del: rev_map)

lemma sorted_wrt_ge_sort_values_desc: "sorted_wrt (\<ge>) (map snd (sort_values_desc s))"
proof -
  have "sorted (map snd (sort_key snd s))" by simp
  then have "sorted_wrt (\<ge>) (rev (map snd (sort_key snd s)))"
    by (simp only: sorted_wrt_rev)
  then show ?thesis by (simp add: sort_values_desc_def rev_map)
qed

lemma sorted_value_counts: "sorted_wrt (\<ge>) (map snd (value_counts ks))"
proof -
  have "sorted (map (\<lambda>r. - int (snd r)) (value_counts ks))"
    by (simp add: value_counts_def)
  then show ?thesis by (simp add: sorted_wrt_map)
qed

lemma length_value_counts: "length (value_counts ks) = card (set (dropna ks))"
  by (simp add: value_counts_def nunique_card [symmetric] nunique_def)

lemma series_mean_value_counts:
  "series_mean (value_counts ks) =
     (if set (dropna ks) = {} then None
      else Some (real (length (dropna ks)) / real (card (set (dropna ks)))))"
proof -
  have "value_counts ks = [] \<longleftrightarrow> set (dropna ks) = {}"
    using length_value_counts [of ks] by (metis card_0_eq List.finite_set length_0_conv)
  then show ?thesis
    by (simp add: series_mean_def sum_value_counts length_value_counts)
qed

lemma head_all: "length s \<le> n \<Longrightarrow> head n s = s"
  by (simp add: head_def)

text \<open>
  Claim C10, as the code has it. The claim says that the per-customer frequencies that
  are reported add up to the number of rows that have an identifier. The report prints
  the frequencies of the ten most frequent customers only. \<open>eleven_customers\<close> has
  eleven rows, each with an identifier of its own: the frequencies that the step prints
  add up to 10.
\<close>

theorem null_customers_excluded_counterexample:
  "map_of eleven_customers ''CustomerID'' =
     Some (Numeric [Some 1, Some 2, Some 3, Some 4, Some 5, Some 6, Some 7, Some 8, Some 9,
                    Some 10, Some 11]) \<and>
   null_count (Numeric [Some 1, Some 2, Some 3, Some 4, Some 5, Some 6, Some 7, Some 8,
                        Some 9, Some 10, Some 11]) = 0 \<and>
   nrows eleven_customers = 11 \<and>
   map_sum id reported_frequencies (customer_behavior_analysis eleven_customers) = Inr 10"
proof -
  have cols: "''CustomerID'' \<in> set (columns eleven_customers)"
    "''TotalAmount'' \<notin> set (columns eleven_customers)"
    by (simp_all add: eleven_customers_def columns_def)
  have col: "map_of eleven_customers ''CustomerID'' =
     Some (Numeric [Some 1, Some 2, Some 3, Some 4, Some 5, Some 6, Some 7, Some 8, Some 9,
                    Some 10, Some 11])" "nrows eleven_customers = 11"
    by (simp_all add: eleven_customers_def nrows_def)
  have freq: "customer_freq eleven_customers =
     Inr [(KNum 1, 1), (KNum 2, 1), (KNum 3, 1), (KNum 4, 1), (KNum 5, 1), (KNum 6, 1),
          (KNum 7, 1), (KNum 8, 1), (KNum 9, 1), (KNum 10, 1), (KNum 11, 1)]"
    by (simp add: eleven_customers_def customer_freq_def value_counts_def unique_def)
  obtain n where n: "unique_customers eleven_customers = Inr n"
    by (simp add: eleven_customers_def unique_customers_def)
  have "map_sum id reported_frequencies (customer_behavior_analysis eleven_customers) = Inr 10"
    by (simp add: customer_behavior_analysis_def cols freq n customer_spending_report_def
        banner_def head_def)
  with col show ?thesis by simp
qed

text \<open>
  Claim C10, amended: in the customer analysis of a table whose monetary column is
  numeric or absent, the rows whose customer identifier is missing are excluded from the
  purchase frequencies, from the number of unique customers, from the average number of
  purchases and from the spending totals. The step prints the number of identifiers that
  are present and the average of the frequencies, which is the number of rows with an
  identifier divided by that number (rounded to two decimals in the report). The
  frequency series has one entry for every identifier that is present, a frequency is the
  number of rows with that identifier, and all frequencies add up to the number of rows
  minus the rows whose identifier is missing. The report prints the ten largest
  frequencies of the series, which are all of them when there are at most ten customers.
  With a numeric monetary column the spending series has one entry for every identifier
  that is present, its ten first entries are printed and the histogram is saved; when the
  amounts are whole numbers with magnitudes adding up to at most \<open>2 ^ 53\<close> (the
  arithmetic caveat), the entry of a customer is the sum of the amounts of the rows of
  that customer, the entries are in descending order, and they add up to the amounts of
  the rows whose identifier is present. Without a monetary column nothing else is
  reported.
\<close>

theorem null_customers_excluded:
  assumes "map_of df ''CustomerID'' = Some c"
      and "map_of df ''TotalAmount'' = None \<or> (\<exists>vs. map_of df ''TotalAmount'' = Some (Numeric vs))"
  shows "\<exists>freq rest.
     customer_behavior_analysis df =
       Inr (banner 50 ''CUSTOMER BEHAVIOR INSIGHTS'' @
            [Print (TotalUniqueCustomers (card (set (dropna (keys_of c))))),
             Print (AveragePurchases
               (if set (dropna (keys_of c)) = {} then None
                else Some (real (col_len c - null_count c) /
                           real (card (set (dropna (keys_of c))))))),
             Print (Text (CHR 0x0A # ''Top 10 Customers by Purchase Frequency:'')),
             Print (Counts (head 10 freq))] @ rest) \<and>
     fst ` set freq = set (dropna (keys_of c)) \<and> distinct (map fst freq) \<and>
     (\<forall>r\<in>set freq. snd r = length (filter (\<lambda>x. x = Some (fst r)) (keys_of c))) \<and>
     sorted_wrt (\<ge>) (map snd freq) \<and>
     sum_list (map snd freq) = col_len c - null_count c \<and>
     (card (set (dropna (keys_of c))) \<le> 10 \<longrightarrow> head 10 freq = freq) \<and>
     (map_of df ''TotalAmount'' = None \<longrightarrow> rest = []) \<and>
     (\<forall>vs. map_of df ''TotalAmount'' = Some (Numeric vs) \<longrightarrow>
        (\<exists>spending.
           rest = [Print (Text (CHR 0x0A # ''Top 10 Customers by Spending:'')),
                   Print (Amounts (head 10 spending)),
                   Savefig ''results/customer_spending_dist.png''] \<and>
           fst ` set spending = set (dropna (keys_of c)) \<and> distinct (map fst spending) \<and>
           (whole_amounts 53 vs \<longrightarrow>
              (\<forall>r\<in>set spending. snd r = nansum (group_rows (fst r) (keys_of c) vs)) \<and>
              sorted_wrt (\<ge>) (map snd spending) \<and>
              series_sum spending = nansum (keyed_rows (keys_of c) vs))))"
proof -
  let ?freq = "value_counts (keys_of c)"
  let ?top = "banner 50 ''CUSTOMER BEHAVIOR INSIGHTS''"
  let ?lines = "
            [Print (TotalUniqueCustomers (card (set (dropna (keys_of c))))),
             Print (AveragePurchases
               (if set (dropna (keys_of c)) = {} then None
                else Some (real (col_len c - null_count c) /
                           real (card (set (dropna (keys_of c))))))),
             Print (Text (CHR 0x0A # ''Top 10 Customers by Purchase Frequency:'')),
             Print (Counts (head 10 ?freq))]"
  have col: "''CustomerID'' \<in> set (columns df)"
    using assms(1) by (rule map_of_columns)
  have run: "customer_behavior_analysis df =
      and_then (customer_spending_report df) (\<lambda>spending. Inr (?top @ ?lines @ spending))"
    using col assms(1)
    by (simp add: customer_behavior_analysis_def customer_freq_def unique_customers_def
        nunique_card series_mean_value_counts present_keys)
  have freq: "fst ` set ?freq = set (dropna (keys_of c))" "distinct (map fst ?freq)"
    "\<forall>r\<in>set ?freq. snd r = length (filter (\<lambda>x. x = Some (fst r)) (keys_of c))"
    "sorted_wrt (\<ge>) (map snd ?freq)"
    "sum_list (map snd ?freq) = col_len c - null_count c"
    "card (set (dropna (keys_of c))) \<le> 10 \<longrightarrow> head 10 ?freq = ?freq"
    by (simp_all add: set_value_counts distinct_value_counts value_counts_entry
        sorted_value_counts sum_value_counts present_keys head_all length_value_counts)
  from assms(2) show ?thesis
  proof
    assume none: "map_of df ''TotalAmount'' = None"
    then have "customer_spending_report df = Inr []"
      by (simp add: customer_spending_report_def in_columns_iff)
    with run have "customer_behavior_analysis df = Inr (?top @ ?lines @ [])"
      by simp
    then have out: "customer_behavior_analysis df = Inr (?top @ ?lines @ [])" .
    have no: "\<forall>vs. map_of df ''TotalAmount'' = Some (Numeric vs) \<longrightarrow>
        (\<exists>spending.
           [] = [Print (Text (CHR 0x0A # ''Top 10 Customers by Spending:'')),
                   Print (Amounts (head 10 spending)),
                   Savefig ''results/customer_spending_dist.png''] \<and>
           fst ` set spending = set (dropna (keys_of c)) \<and> distinct (map fst spending) \<and>
           (whole_amounts 53 vs \<longrightarrow>
              (\<forall>r\<in>set spending. snd r = nansum (group_rows (fst r) (keys_of c) vs)) \<and>
              sorted_wrt (\<ge>) (map snd spending) \<and>
              series_sum spending = nansum (keyed_rows (keys_of c) vs)))"
      using none by simp
    have "map_of df ''TotalAmount'' = None \<longrightarrow> ([] :: event list) = []" by simp
    with out freq no show ?thesis
      by (intro exI [of _ ?freq] exI [of _ "[]"] conjI)
  next
    assume "\<exists>vs. map_of df ''TotalAmount'' = Some (Numeric vs)"
    then obtain vs where vs: "map_of df ''TotalAmount'' = Some (Numeric vs)" by blast
    let ?spending = "sort_values_desc (groupby_sum (keys_of c) vs)"
    let ?rest = "[Print (Text (CHR 0x0A # ''Top 10 Customers by Spending:'')),
                   Print (Amounts (head 10 ?spending)),
                   Savefig ''results/customer_spending_dist.png'']"
    have "customer_spending_report df = Inr ?rest"
      using vs assms(1)
      by (simp add: customer_spending_report_def in_columns_iff customer_spending_def)
    with run have out: "customer_behavior_analysis df = Inr (?top @ ?lines @ ?rest)"
      by simp
    have spending: "fst ` set ?spending = set (dropna (keys_of c))"
      "distinct (map fst ?spending)"
      "\<forall>r\<in>set ?spending. snd r = nansum (group_rows (fst r) (keys_of c) vs)"
      "sorted_wrt (\<ge>) (map snd ?spending)"
      "series_sum ?spending = nansum (keyed_rows (keys_of c) vs)"
      by (simp_all add: fst_set_groupby_sum groupby_sum_entry sorted_wrt_ge_sort_values_desc
          series_sum_groupby_sum)
    have "\<exists>spending.
           ?rest = [Print (Text (CHR 0x0A # ''Top 10 Customers by Spending:'')),
                   Print (Amounts (head 10 spending)),
                   Savefig ''results/customer_spending_dist.png''] \<and>
           fst ` set spending = set (dropna (keys_of c)) \<and> distinct (map fst spending) \<and>
           (whole_amounts 53 v \<longrightarrow>
              (\<forall>r\<in>set spending. snd r = nansum (group_rows (fst r) (keys_of c) v)) \<and>
              sorted_wrt (\<ge>) (map snd spending) \<and>
              series_sum spending = nansum (keyed_rows (keys_of c) v))"
      if "map_of df ''TotalAmount'' = Some (Numeric v)" for v
    proof -
      from that vs have "v = vs" by simp
      with spending show ?thesis by blast
    qed
    then have sp: "\<forall>v. map_of df ''TotalAmount'' = Some (Numeric v) \<longrightarrow>
        (\<exists>spending.
           ?rest = [Print (Text (CHR 0x0A # ''Top 10 Customers by Spending:'')),
                   Print (Amounts (head 10 spending)),
                   Savefig ''results/customer_spending_dist.png''] \<and>
           fst ` set spending = set (dropna (keys_of c)) \<and> distinct (map fst spending) \<and>
           (whole_amounts 53 v \<longrightarrow>
              (\<forall>r\<in>set spending. snd r = nansum (group_rows (fst r) (keys_of c) v)) \<and>
              sorted_wrt (\<ge>) (map snd spending) \<and>
              series_sum spending = nansum (keyed_rows (keys_of c) v)))" by blast
    have "map_of df ''TotalAmount'' = None \<longrightarrow> ?rest = []" using vs by simp
    with out freq sp show ?thesis
      by (intro exI [of _ ?freq] exI [of _ ?rest] conjI)
  qed
qed

theorem null_customers_excluded_witness:
  "map_of walk_in_sale ''CustomerID'' = Some (Numeric [Some 7, None, Some 7, Some 3]) \<and>
   map_of walk_in_sale ''TotalAmount'' = Some (Numeric [Some 10, Some 20, Some 5, Some 1]) \<and>
   whole_amounts 53 [Some 10, Some 20, Some 5, Some 1] \<and>
   (\<exists>freq spending.
     customer_behavior_analysis walk_in_sale =
       Inr (banner 50 ''CUSTOMER BEHAVIOR INSIGHTS'' @
            [Print (TotalUniqueCustomers 2),
             Print (AveragePurchases (Some (3 / 2))),
             Print (Text (CHR 0x0A # ''Top 10 Customers by Purchase Frequency:'')),
             Print (Counts freq),
             Print (Text (CHR 0x0A # ''Top 10 Customers by Spending:'')),
             Print (Amounts (head 10 spending)),
             Savefig ''results/customer_spending_dist.png'']) \<and>
     fst ` set freq = {KNum 7, KNum 3} \<and> sum_list (map snd freq) = 3 \<and>
     fst ` set spending = {KNum 7, KNum 3} \<and> series_sum spending = 16)"
proof -
  let ?c = "Numeric [Some 7, None, Some 7, Some 3]"
  let ?vs = "[Some 10, Some 20, Some 5, Some 1]"
  have c: "map_of walk_in_sale ''CustomerID'' = Some ?c"
    by (simp add: walk_in_sale_def)
  have a: "map_of walk_in_sale ''TotalAmount'' = Some (Numeric ?vs)"
    by (simp add: walk_in_sale_def)
  then have a': "map_of walk_in_sale ''TotalAmount'' = None \<or>
      (\<exists>vs. map_of walk_in_sale ''TotalAmount'' = Some (Numeric vs))" by blast
  have w: "whole_amounts 53 ?vs" by (simp add: whole_amounts_def)
  have keys: "set (dropna (keys_of ?c)) = {KNum 7, KNum 3}" by auto
  have rows: "col_len ?c - null_count ?c = 3" by simp
  have card: "card {KNum 7, KNum 3} = 2" by simp
  have total: "nansum (keyed_rows (keys_of ?c) ?vs) = 16"
    by (simp add: keyed_rows_def nansum_def)
  have avg: "(if {KNum 7, KNum 3} = {} then None
                else Some (real 3 / real 2)) = Some (3 / 2)"
    by simp
  note inst = null_customers_excluded [OF c a']
  from inst [unfolded keys rows card avg] obtain freq rest where
    run: "customer_behavior_analysis walk_in_sale =
       Inr (banner 50 ''CUSTOMER BEHAVIOR INSIGHTS'' @
            [Print (TotalUniqueCustomers 2),
             Print (AveragePurchases (Some (3 / 2))),
             Print (Text (CHR 0x0A # ''Top 10 Customers by Purchase Frequency:'')),
             Print (Counts (head 10 freq))] @ rest)" and
    f1: "fst ` set freq = {KNum 7, KNum 3}" and
    f2: "sum_list (map snd freq) = 3" and
    f3: "2 \<le> (10 :: nat) \<longrightarrow> head 10 freq = freq" and
    s: "\<forall>vs. map_of walk_in_sale ''TotalAmount'' = Some (Numeric vs) \<longrightarrow>
        (\<exists>spending.
           rest = [Print (Text (CHR 0x0A # ''Top 10 Customers by Spending:'')),
                   Print (Amounts (head 10 spending)),
                   Savefig ''results/customer_spending_dist.png''] \<and>
           fst ` set spending = {KNum 7, KNum 3} \<and> distinct (map fst spending) \<and>
           (whole_amounts 53 vs \<longrightarrow>
              (\<forall>r\<in>set spending. snd r = nansum (group_rows (fst r) (keys_of ?c) vs)) \<and>
              sorted_wrt (\<ge>) (map snd spending) \<and>
              series_sum spending = nansum (keyed_rows (keys_of ?c) vs)))"
    by (elim exE conjE)
  from s [rule_format, OF a] obtain spending where
    sp1: "rest = [Print (Text (CHR 0x0A # ''Top 10 Customers by Spending:'')),
                 Print (Amounts (head 10 spending)),
                 Savefig ''results/customer_spending_dist.png'']" and
    sp2: "fst ` set spending = {KNum 7, KNum 3}" and
    sp3: "whole_amounts 53 ?vs \<longrightarrow>
              (\<forall>r\<in>set spending. snd r = nansum (group_rows (fst r) (keys_of ?c) ?vs)) \<and>
              sorted_wrt (\<ge>) (map snd spending) \<and>
              series_sum spending = nansum (keyed_rows (keys_of ?c) ?vs)"
    by (elim exE conjE)
  from sp3 w have sp4: "series_sum spending = 16" unfolding total by (elim impE conjE)
  from f3 have all: "head 10 freq = freq" by simp
  have out: "customer_behavior_analysis walk_in_sale =
       Inr (banner 50 ''CUSTOMER BEHAVIOR INSIGHTS'' @
            [Print (TotalUniqueCustomers 2),
             Print (AveragePurchases (Some (3 / 2))),
             Print (Text (CHR 0x0A # ''Top 10 Customers by Purchase Frequency:'')),
             Print (Counts freq),
             Print (Text (CHR 0x0A # ''Top 10 Customers by Spending:'')),
             Print (Amounts (head 10 spending)),
             Savefig ''results/customer_spending_dist.png''])"
    using run unfolding all sp1 by simp
  from c a w out f1 f2 sp2 sp4 show ?thesis
    by (intro conjI exI [of _ freq] exI [of _ spending])
qed

subsection \<open>Steps without their columns\<close>

lemma saved_files_banner [simp]: "saved_files (banner w title) = []"
  by (simp add: banner_def)

lemma printed_banner:
  "printed (banner w title) =
     [Text (CHR 0x0A # replicate w (CHR ''='')), Text title, Text (replicate w (CHR ''=''))]"
  by (simp add: banner_def)

text \<open>
  Claim C4, amended: a step whose required column is missing prints its section banner
  (the three lines every step starts with, before it looks at the columns) and nothing
  else, saves no chart and raises no error.
\<close>

theorem missing_columns_skip:
  "(''TotalAmount'' \<notin> set (columns df) \<or> ''Month'' \<notin> set (columns df) \<longrightarrow>
      sales_trends_analysis df = Inr (banner 50 ''SALES TRENDS ANALYSIS'')) \<and>
   (''CustomerID'' \<notin> set (columns df) \<longrightarrow>
      customer_behavior_analysis df = Inr (banner 50 ''CUSTOMER BEHAVIOR INSIGHTS'')) \<and>
   (''Product'' \<notin> set (columns df) \<or> ''TotalAmount'' \<notin> set (columns df) \<longrightarrow>
      revenue_driver_analysis df = Inr (banner 50 ''REVENUE DRIVER IDENTIFICATION'')) \<and>
   saved_files (banner 50 title) = [] \<and>
   printed (banner 50 title) =
     [Text (CHR 0x0A # replicate 50 (CHR ''='')), Text title, Text (replicate 50 (CHR ''=''))]"
  by (auto simp: sales_trends_analysis_def customer_behavior_analysis_def
      revenue_driver_analysis_def printed_banner)

theorem missing_columns_skip_witness:
  "''Month'' \<notin> set (columns amounts_only) \<and>
   ''CustomerID'' \<notin> set (columns amounts_only) \<and>
   ''Product'' \<notin> set (columns amounts_only) \<and>
   sales_trends_analysis amounts_only = Inr (banner 50 ''SALES TRENDS ANALYSIS'') \<and>
   customer_behavior_analysis amounts_only = Inr (banner 50 ''CUSTOMER BEHAVIOR INSIGHTS'') \<and>
   revenue_driver_analysis amounts_only = Inr (banner 50 ''REVENUE DRIVER IDENTIFICATION'') \<and>
   saved_files (banner 50 ''SALES TRENDS ANALYSIS'') = []"
  using missing_columns_skip [of amounts_only "''SALES TRENDS ANALYSIS''"]
  by (simp add: amounts_only_def columns_def)

text \<open>
  Claim C4, as the code has it. The claim says that such a step produces no report
  output. \<open>walk_in_sale\<close> has no month column, and the sales step still prints its
  banner.
\<close>

theorem missing_columns_skip_counterexample:
  "''Month'' \<notin> set (columns walk_in_sale) \<and>
   map_sum id printed (sales_trends_analysis walk_in_sale) =
     Inr [Text (CHR 0x0A # replicate 50 (CHR ''='')), Text ''SALES TRENDS ANALYSIS'',
          Text (replicate 50 (CHR ''=''))]"
  by (simp add: walk_in_sale_def columns_def sales_trends_analysis_def printed_banner)

subsection \<open>Loading and the calendar columns\<close>

lemma map_of_set_column [simp]:
  "map_of (set_column n c df) m = (if m = n then Some c else map_of df m)"
  by (induction df) auto

lemma columns_set_column:
  "set (columns (set_column n c df)) = insert n (set (columns df))"
  by (auto simp: in_columns_iff split: if_splits)

lemma assign_dt_Datetime:
  "map_of df ''InvoiceDate'' = Some (Datetime ts) \<Longrightarrow>
   assign_dt name f df =
     Inr (set_column name (Numeric (map (map_option (\<lambda>t. real_of_int (f t))) ts)) df)"
  by (simp add: assign_dt_def dt_field_def and_then_def)

lemma load_data_parsed:
  assumes "map_of df ''InvoiceDate'' = Some raw" and "to_datetime raw = Inr ts"
  shows "load_data to_datetime df =
     Inr (set_column ''DayOfWeek'' (dt_column dayofweek ts)
           (set_column ''Day'' (dt_column day ts)
             (set_column ''Month'' (dt_column month ts)
               (set_column ''Year'' (dt_column year ts)
                 (set_column ''InvoiceDate'' (Datetime ts) df)))))"
  using assms
  by (simp add: load_data_def in_columns_iff and_then_def assign_dt_Datetime dt_column_def)

text \<open>
  Claim C7, amended: when the timestamp column exists and parses, the load returns a
  table with the four calendar columns; when it does not exist, the load returns the
  table unchanged, so a calendar column is present then exactly when the input already
  had a column of that name.
\<close>

theorem derived_columns:
  "(map_of df ''InvoiceDate'' = Some raw \<and> to_datetime raw = Inr ts \<longrightarrow>
      (\<exists>df'. load_data to_datetime df = Inr df' \<and>
         {''Year'', ''Month'', ''Day'', ''DayOfWeek''} \<subseteq> set (columns df'))) \<and>
   (''InvoiceDate'' \<notin> set (columns df) \<longrightarrow> load_data to_datetime df = Inr df)"
  by (auto simp: load_data_parsed columns_set_column) (simp add: load_data_def)

theorem derived_columns_witness:
  "map_of dated_sales ''InvoiceDate'' =
     Some (Object [Some ''2024-02-29 10:00'', None, Some ''2024-03-01 08:26'']) \<and>
   example_to_datetime (Object [Some ''2024-02-29 10:00'', None, Some ''2024-03-01 08:26'']) =
     Inr [Some \<lparr>year = 2024, month = 2, day = 29, time_ns = 36000000000000\<rparr>, None,
          Some \<lparr>year = 2024, month = 3, day = 1, time_ns = 30360000000000\<rparr>] \<and>
   (\<exists>df'. load_data example_to_datetime dated_sales = Inr df' \<and>
      {''Year'', ''Month'', ''Day'', ''DayOfWeek''} \<subseteq> set (columns df')) \<and>
   ''InvoiceDate'' \<notin> set (columns amounts_only) \<and>
   load_data example_to_datetime amounts_only = Inr amounts_only"
proof -
  let ?raw = "Object [Some ''2024-02-29 10:00'', None, Some ''2024-03-01 08:26'']"
  let ?ts = "[Some \<lparr>year = 2024, month = 2, day = 29, time_ns = 36000000000000\<rparr>, None,
          Some \<lparr>year = 2024, month = 3, day = 1, time_ns = 30360000000000\<rparr>]"
  have raw: "map_of dated_sales ''InvoiceDate'' = Some ?raw"
    by (simp add: dated_sales_def)
  have ts: "example_to_datetime ?raw = Inr ?ts"
    by (simp add: example_to_datetime_def known_dates_def and_then_def)
  have absent: "''InvoiceDate'' \<notin> set (columns amounts_only)"
    by (simp add: amounts_only_def columns_def)
  from raw ts absent
    derived_columns [of dated_sales ?raw example_to_datetime ?ts]
    derived_columns [of amounts_only ?raw example_to_datetime ?ts]
  show ?thesis by blast
qed

text \<open>
  Claim C7, as the code has it. The claim says that the four calendar columns are
  present only if the timestamp column exists in the input. \<open>calendar_only\<close> has no
  timestamp column and is returned as it is, with the four columns it came with.
\<close>

theorem derived_columns_counterexample:
  "''InvoiceDate'' \<notin> set (columns calendar_only) \<and>
   load_data example_to_datetime calendar_only = Inr calendar_only \<and>
   {''Year'', ''Month'', ''Day'', ''DayOfWeek''} \<subseteq> set (columns calendar_only)"
  by (simp add: calendar_only_def columns_def load_data_def)

lemma date_of_fields_roundtrip:
  "date_of_fields (real_of_int (year t)) (real_of_int (month t)) (real_of_int (day t)) =
   normalize t"
  by (simp add: date_of_fields_def normalize_def)

lemma dayofweek_normalize: "dayofweek (normalize t) = dayofweek t"
  by (simp add: dayofweek_def normalize_def)

lemma numeric_cell_set_column_same:
  "numeric_cell (set_column n (dt_column f ts) df) n i =
     (if i < length ts then map_option (\<lambda>t. real_of_int (f t)) (ts ! i) else None)"
  by (simp add: numeric_cell_def dt_column_def)

lemma numeric_cell_set_column_other:
  "m \<noteq> n \<Longrightarrow> numeric_cell (set_column n c df) m i = numeric_cell df m i"
  by (simp add: numeric_cell_def)

text \<open>
  pandas' day of the week is the day of the week by the count of days: the year terms
  agree modulo 7 over a 400-year cycle, and the month table is the day of the year of
  the first of the month, modulo 7.
\<close>

lemma year_part:
  fixes y :: int
  shows "(y + y div 4 - y div 100 + y div 400) mod 7 =
         ((y div 400) * 146097 + (y - (y div 400) * 400) * 365 + (y - (y div 400) * 400) div 4
           - (y - (y div 400) * 400) div 100) mod 7"
proof -
  define q where "q = y div 400"
  define r where "r = y mod 400"
  have y: "y = r + 400 * q" by (simp add: q_def r_def)
  have "(r + 4 * (100 * q)) div 4 = 100 * q + r div 4" by (rule div_mult_self2) simp
  then have d4: "y div 4 = 100 * q + r div 4" by (simp add: y)
  have "(r + 100 * (4 * q)) div 100 = 4 * q + r div 100" by (rule div_mult_self2) simp
  then have d100: "y div 100 = 4 * q + r div 100" by (simp add: y)
  have yoe: "y - q * 400 = r" by (simp add: y)
  have l: "y + y div 4 - y div 100 + q = (r + r div 4 - r div 100) + 7 * (71 * q)"
    unfolding d4 d100 by (simp add: y)
  have rr: "q * 146097 + r * 365 + r div 4 - r div 100
      = (r + r div 4 - r div 100) + 7 * (20871 * q + 52 * r)" by simp
  have "(y + y div 4 - y div 100 + q) mod 7 = (r + r div 4 - r div 100) mod 7"
    unfolding l by (simp only: mod_mult_self2)
  moreover have "(q * 146097 + r * 365 + r div 4 - r div 100) mod 7
      = (r + r div 4 - r div 100) mod 7"
    unfolding rr by (simp only: mod_mult_self2)
  ultimately show ?thesis
    unfolding q_def[symmetric] yoe by simp
qed

lemma weekday_shift:
  fixes A B c d e :: int
  assumes "A mod 7 = B mod 7" and "(e - c - 6) mod 7 = 0"
  shows "((A + c + d) mod 7 + 6) mod 7 = (B + d + e) mod 7"
proof -
  have "((A + c + d) mod 7 + 6) mod 7 = (A + c + d + 6) mod 7"
    by (simp only: mod_add_left_eq)
  also have "A + c + d + 6 = A + (c + d + 6)" by simp
  also have "(A + (c + d + 6)) mod 7 = (B + (c + d + 6)) mod 7"
    using assms(1) by (rule mod_add_cong) simp
  also have "\<dots> = ((B + (c + d + 6)) + (e - c - 6)) mod 7"
  proof -
    have "((B + (c + d + 6)) + 0) mod 7 = ((B + (c + d + 6)) + (e - c - 6)) mod 7"
      by (rule mod_add_cong) (simp_all add: assms(2))
    then show ?thesis by simp
  qed
  also have "(B + (c + d + 6)) + (e - c - 6) = B + d + e" by simp
  finally show ?thesis .
qed

lemma month_part:
  fixes m :: int
  assumes "1 \<le> m" and "m \<le> 12"
  shows "(((153 * (if 2 < m then m - 3 else m + 9) + 2) div 5 - 719466) -
          sakamoto_arr ! nat (m - 1) - 6) mod 7 = 0"
proof -
  from assms have "m = 1 \<or> m = 2 \<or> m = 3 \<or> m = 4 \<or> m = 5 \<or> m = 6 \<or> m = 7 \<or> m = 8 \<or>
     m = 9 \<or> m = 10 \<or> m = 11 \<or> m = 12" by arith
  then show ?thesis
    by (elim disjE) (simp_all add: sakamoto_arr_def)
qed

lemma dayofweek_weekday:
  assumes "1 \<le> month t" and "month t \<le> 12"
  shows "dayofweek t = weekday t"
proof -
  define y' where "y' = (if month t < 3 then year t - 1 else year t)"
  have y'2: "(if month t \<le> 2 then year t - 1 else year t) = y'" by (simp add: y'_def)
  let ?A = "y' + y' div 4 - y' div 100 + y' div 400"
  let ?B = "(y' div 400) * 146097 + (y' - (y' div 400) * 400) * 365
      + (y' - (y' div 400) * 400) div 4 - (y' - (y' div 400) * 400) div 100"
  let ?c = "sakamoto_arr ! nat (month t - 1)"
  let ?e = "(153 * (if 2 < month t then month t - 3 else month t + 9) + 2) div 5 - 719466"
  have "dayofweek t = ((?A + ?c + day t) mod 7 + 6) mod 7"
    by (simp add: dayofweek_def Let_def y'_def)
  also have "\<dots> = (?B + day t + ?e) mod 7"
    using year_part[of y'] month_part[OF assms] by (rule weekday_shift)
  also have "?B + day t + ?e = days_from_civil (year t) (month t) (day t) + 3"
    unfolding days_from_civil_def Let_def y'2 by simp
  finally show ?thesis by (simp add: weekday_def)
qed

lemma weekday_normalize: "weekday (normalize t) = weekday t"
  by (simp add: weekday_def normalize_def)

text \<open>
  Claim C8: for every row whose parsed timestamp is valid, the four calendar cells of
  that row are set, the date rebuilt from the year, month and day cells is the calendar
  date of the timestamp, and the day-of-week cell is pandas' day of the week of that
  date, which for a calendar month is the day of the week by the count of days.
\<close>

theorem calendar_fields_consistent:
  assumes "map_of df ''InvoiceDate'' = Some raw" and "to_datetime raw = Inr ts"
      and "i < length ts" and "ts ! i = Some t"
  shows "\<exists>df' y m d w.
     load_data to_datetime df = Inr df' \<and>
     map_of df' ''InvoiceDate'' = Some (Datetime ts) \<and>
     numeric_cell df' ''Year'' i = Some y \<and>
     numeric_cell df' ''Month'' i = Some m \<and>
     numeric_cell df' ''Day'' i = Some d \<and>
     numeric_cell df' ''DayOfWeek'' i = Some w \<and>
     date_of_fields y m d = normalize t \<and>
     w = real_of_int (dayofweek (date_of_fields y m d)) \<and>
     (1 \<le> month t \<and> month t \<le> 12 \<longrightarrow> w = real_of_int (weekday (date_of_fields y m d)))"
proof -
  let ?df' = "set_column ''DayOfWeek'' (dt_column dayofweek ts)
           (set_column ''Day'' (dt_column day ts)
             (set_column ''Month'' (dt_column month ts)
               (set_column ''Year'' (dt_column year ts)
                 (set_column ''InvoiceDate'' (Datetime ts) df))))"
  have run: "load_data to_datetime df = Inr ?df'"
    using assms(1,2) by (rule load_data_parsed)
  have stamp: "map_of ?df' ''InvoiceDate'' = Some (Datetime ts)"
    by simp
  have y: "numeric_cell ?df' ''Year'' i = Some (real_of_int (year t))"
    using assms(3,4)
    by (simp add: numeric_cell_set_column_other numeric_cell_set_column_same)
  have m: "numeric_cell ?df' ''Month'' i = Some (real_of_int (month t))"
    using assms(3,4)
    by (simp add: numeric_cell_set_column_other numeric_cell_set_column_same)
  have d: "numeric_cell ?df' ''Day'' i = Some (real_of_int (day t))"
    using assms(3,4)
    by (simp add: numeric_cell_set_column_other numeric_cell_set_column_same)
  have w: "numeric_cell ?df' ''DayOfWeek'' i = Some (real_of_int (dayofweek t))"
    using assms(3,4)
    by (simp add: numeric_cell_set_column_same)
  have w': "real_of_int (dayofweek t) =
      real_of_int (dayofweek (date_of_fields (real_of_int (year t)) (real_of_int (month t))
        (real_of_int (day t))))"
    by (simp only: date_of_fields_roundtrip dayofweek_normalize)
  have w'': "real_of_int (dayofweek t) =
      real_of_int (weekday (date_of_fields (real_of_int (year t)) (real_of_int (month t))
        (real_of_int (day t))))" if "1 \<le> month t \<and> month t \<le> 12"
    using that by (simp only: date_of_fields_roundtrip weekday_normalize dayofweek_weekday)
  from run stamp y m d w w' w'' date_of_fields_roundtrip [of t] show ?thesis by blast
qed

theorem calendar_fields_consistent_witness:
  "map_of dated_sales ''InvoiceDate'' =
     Some (Object [Some ''2024-02-29 10:00'', None, Some ''2024-03-01 08:26'']) \<and>
   example_to_datetime (Object [Some ''2024-02-29 10:00'', None, Some ''2024-03-01 08:26'']) =
     Inr [Some \<lparr>year = 2024, month = 2, day = 29, time_ns = 36000000000000\<rparr>, None,
          Some \<lparr>year = 2024, month = 3, day = 1, time_ns = 30360000000000\<rparr>] \<and>
   (\<exists>df' y m d.
     load_data example_to_datetime dated_sales = Inr df' \<and>
     numeric_cell df' ''Year'' 2 = Some y \<and>
     numeric_cell df' ''Month'' 2 = Some m \<and>
     numeric_cell df' ''Day'' 2 = Some d \<and>
     numeric_cell df' ''DayOfWeek'' 2 = Some 4 \<and>
     date_of_fields y m d = \<lparr>year = 2024, month = 3, day = 1, time_ns = 0\<rparr>)"
proof -
  let ?raw = "Object [Some ''2024-02-29 10:00'', None, Some ''2024-03-01 08:26'']"
  let ?t = "\<lparr>year = 2024, month = 3, day = 1, time_ns = 30360000000000\<rparr>"
  let ?ts = "[Some \<lparr>year = 2024, month = 2, day = 29, time_ns = 36000000000000\<rparr>, None, Some ?t]"
  let ?date = "\<lparr>year = 2024, month = 3, day = 1, time_ns = 0\<rparr>"
  have raw: "map_of dated_sales ''InvoiceDate'' = Some ?raw"
    by (simp add: dated_sales_def)
  have ts: "example_to_datetime ?raw = Inr ?ts"
    by (simp add: example_to_datetime_def known_dates_def and_then_def)
  have i: "2 < length ?ts" by simp
  have t: "?ts ! 2 = Some ?t" by simp
  have n: "normalize ?t = ?date"
    by (simp add: normalize_def)
  have month: "1 \<le> month ?t \<and> month ?t \<le> 12" by simp
  have friday: "weekday ?date = 4"
    by (simp add: weekday_def days_from_civil_def)
  from calendar_fields_consistent [of dated_sales ?raw example_to_datetime ?ts 2 ?t,
      OF raw ts i t]
  obtain df' y m d w where
    "load_data example_to_datetime dated_sales = Inr df'"
    "numeric_cell df' ''Year'' 2 = Some y" "numeric_cell df' ''Month'' 2 = Some m"
    "numeric_cell df' ''Day'' 2 = Some d" "numeric_cell df' ''DayOfWeek'' 2 = Some w"
    "date_of_fields y m d = normalize ?t"
    "1 \<le> month ?t \<and> month ?t \<le> 12 \<longrightarrow> w = real_of_int (weekday (date_of_fields y m d))"
    by blast
  with month n friday raw ts show ?thesis by auto
qed

subsection \<open>Revenue concentration\<close>

lemma nth_cumsum_from:
  "i < length xs \<Longrightarrow> cumsum_from acc xs ! i = acc + sum_list (take (Suc i) xs)"
proof (induction xs arbitrary: acc i)
  case Nil
  then show ?case by simp
next
  case (Cons x xs)
  then show ?case by (cases i) (simp_all add: add.assoc)
qed

lemma length_cumsum_from [simp]: "length (cumsum_from acc xs) = length xs"
  by (induction xs arbitrary: acc) simp_all

lemma nth_cumsum: "i < length xs \<Longrightarrow> cumsum xs ! i = sum_list (take (Suc i) xs)"
  by (simp add: cumsum_def nth_cumsum_from)

text \<open>A predicate that holds on a prefix only: counting is measuring the prefix.\<close>

lemma filter_prefix_closed:
  "(\<And>i j. j < i \<Longrightarrow> i < length xs \<Longrightarrow> P (xs ! i) \<Longrightarrow> P (xs ! j)) \<Longrightarrow>
   filter P xs = takeWhile P xs"
proof (induction xs)
  case Nil
  then show ?case by simp
next
  case (Cons x xs)
  show ?case
  proof (cases "P x")
    case True
    have "filter P xs = takeWhile P xs"
    proof (rule Cons.IH)
      fix i j assume "j < i" "i < length xs" "P (xs ! i)"
      then show "P (xs ! j)" using Cons.prems[of "Suc j" "Suc i"] by simp
    qed
    with True show ?thesis by simp
  next
    case False
    have "\<not> P y" if "y \<in> set xs" for y
    proof -
      from that obtain i where "i < length xs" "xs ! i = y" by (auto simp: in_set_conv_nth)
      with Cons.prems[of 0 "Suc i"] False show ?thesis by auto
    qed
    with False show ?thesis by (simp add: filter_empty_conv)
  qed
qed

text \<open>In a descending list, a positive remainder means every earlier entry is positive.\<close>

lemma descending_positive_before:
  assumes desc: "sorted_wrt (\<ge>) (vs :: real list)"
      and rest: "0 < sum_list (drop n vs)" and "j < n"  and "n \<le> length vs"
  shows "0 < vs ! j"
proof -
  from rest obtain v where v: "v \<in> set (drop n vs)" "0 < v"
    by (meson sum_list_nonpos not_less)
  then obtain k where k: "k < length (drop n vs)" "drop n vs ! k = v"
    by (auto simp: in_set_conv_nth)
  then have "vs ! (n + k) = v" "n + k < length vs" by auto
  with desc \<open>j < n\<close> have "v \<le> vs ! j"
    by (auto simp: sorted_wrt_iff_nth_less)
  with v show ?thesis by simp
qed

lemma sum_list_take_mono_pos:
  assumes "\<And>k. k < n \<Longrightarrow> 0 \<le> (vs :: real list) ! k" and "m \<le> n" and "n \<le> length vs"
  shows "sum_list (take m vs) \<le> sum_list (take n vs)"
proof -
  have "take n vs = take m vs @ take (n - m) (drop m vs)"
    using assms(2) by (metis le_add_diff_inverse take_add)
  moreover have "0 \<le> sum_list (take (n - m) (drop m vs))"
  proof (rule sum_list_nonneg)
    fix x assume "x \<in> set (take (n - m) (drop m vs))"
    then obtain k where "k < length (take (n - m) (drop m vs))" "take (n - m) (drop m vs) ! k = x"
      by (auto simp: in_set_conv_nth)
    then have "x = vs ! (m + k)" "m + k < n" using assms(2,3) by auto
    with assms(1) show "0 \<le> x" by simp
  qed
  ultimately show ?thesis by simp
qed

lemma xle_pct:
  "0 < t \<Longrightarrow> xle (times100 (true_divide c t)) 80 \<longleftrightarrow> c \<le> 80 / 100 * t"
  by (simp add: true_divide_def field_simps)

lemma pareto_prefix_closed:
  assumes desc: "sorted_wrt (\<ge>) (vs :: real list)" and pos: "0 < sum_list vs"
      and "j < i" and "i < length vs"
      and le: "sum_list (take (Suc i) vs) \<le> 80 / 100 * sum_list vs"
  shows "sum_list (take (Suc j) vs) \<le> 80 / 100 * sum_list vs"
proof -
  have "sum_list vs = sum_list (take (Suc i) vs) + sum_list (drop (Suc i) vs)"
    by (metis append_take_drop_id sum_list.append)
  with le pos have rest: "0 < sum_list (drop (Suc i) vs)" by simp
  have "0 \<le> vs ! k" if "k < Suc i" for k
    using descending_positive_before[OF desc rest that] assms(4) by simp
  then have "sum_list (take (Suc j) vs) \<le> sum_list (take (Suc i) vs)"
    using assms(3,4) by (intro sum_list_take_mono_pos) simp_all
  with le show ?thesis by simp
qed

lemma top_20_pct_takeWhile:
  assumes desc: "sorted_wrt (\<ge>) (map snd pr)" and pos: "0 < series_sum pr"
  shows "top_20_pct pr =
     length (takeWhile (\<lambda>c. c \<le> 80 / 100 * series_sum pr) (cumsum (map snd pr)))"
proof -
  let ?P = "\<lambda>c. c \<le> 80 / 100 * series_sum pr"
  let ?cs = "cumsum (map snd pr)"
  have "top_20_pct pr = length (filter ?P ?cs)"
    using pos by (simp add: top_20_pct_def cumulative_pct_def filter_map comp_def xle_pct)
  also have "filter ?P ?cs = takeWhile ?P ?cs"
  proof (rule filter_prefix_closed)
    fix i j assume ji: "j < i" and i: "i < length ?cs" and P: "?P (?cs ! i)"
    from i have i': "i < length (map snd pr)" by (simp add: cumsum_def)
    with ji have j': "j < length (map snd pr)" by simp
    from P i' have "sum_list (take (Suc i) (map snd pr)) \<le> 80 / 100 * sum_list (map snd pr)"
      by (simp add: nth_cumsum series_sum_def)
    from pareto_prefix_closed[OF desc _ ji i' this] pos
    have "sum_list (take (Suc j) (map snd pr)) \<le> 80 / 100 * sum_list (map snd pr)"
      by (simp add: series_sum_def)
    with j' show "?P (?cs ! j)" by (simp add: nth_cumsum series_sum_def)
  qed
  finally show ?thesis .
qed

lemma pareto_threshold:
  assumes desc: "sorted_wrt (\<ge>) (map snd pr)" and pos: "0 < series_sum pr"
  shows "sum_list (take (top_20_pct pr) (map snd pr)) \<le> 80 / 100 * series_sum pr"
    and "top_20_pct pr < length pr \<Longrightarrow>
         80 / 100 * series_sum pr < sum_list (take (Suc (top_20_pct pr)) (map snd pr))"
    and "80 / 100 * series_sum pr < snd (hd pr) \<Longrightarrow> top_20_pct pr = 0"
proof -
  let ?P = "\<lambda>c. c \<le> 80 / 100 * series_sum pr"
  let ?cs = "cumsum (map snd pr)"
  let ?n = "top_20_pct pr"
  note n = top_20_pct_takeWhile[OF desc pos]
  have len: "length ?cs = length pr" by (simp add: cumsum_def)
  have n_le: "?n \<le> length pr" unfolding n using length_takeWhile_le[of ?P ?cs] len by simp
  show "sum_list (take ?n (map snd pr)) \<le> 80 / 100 * series_sum pr"
  proof (cases ?n)
    case 0
    with pos show ?thesis by simp
  next
    case (Suc m)
    then have m: "m < length (takeWhile ?P ?cs)" using n by simp
    then have "takeWhile ?P ?cs ! m \<in> set (takeWhile ?P ?cs)" by (rule nth_mem)
    then have "?P (takeWhile ?P ?cs ! m)" by (rule set_takeWhileD[THEN conjunct2])
    then have "?P (?cs ! m)" using m by (simp add: takeWhile_nth)
    moreover have "m < length (map snd pr)" using Suc n_le by simp
    ultimately show ?thesis using Suc by (simp add: nth_cumsum)
  qed
  show "80 / 100 * series_sum pr < sum_list (take (Suc ?n) (map snd pr))" if "?n < length pr"
  proof -
    from that have "length (takeWhile ?P ?cs) < length ?cs" using n len by simp
    then have "\<not> ?P (?cs ! length (takeWhile ?P ?cs))" by (rule nth_length_takeWhile)
    then have "\<not> ?P (?cs ! ?n)" using n by simp
    with that show ?thesis by (simp add: nth_cumsum)
  qed
  show "?n = 0" if "80 / 100 * series_sum pr < snd (hd pr)"
  proof (cases pr)
    case Nil
    then show ?thesis by (simp add: top_20_pct_def cumulative_pct_def cumsum_def)
  next
    case (Cons r rest)
    with that have "\<not> ?P (hd ?cs)" by (simp add: cumsum_def)
    moreover have "?cs \<noteq> []" using Cons by (simp add: cumsum_def)
    ultimately have "takeWhile ?P ?cs = []" by (cases ?cs) simp_all
    then show ?thesis using n by simp
  qed
qed

lemma product_revenue_descending:
  "product_revenue df = Inr pr \<Longrightarrow> sorted_wrt (\<ge>) (map snd pr)"
  by (auto simp: product_revenue_def and_then_def sorted_wrt_ge_sort_values_desc
      split: sum.splits)

lemma product_revenue_columns:
  "product_revenue df = Inr pr \<Longrightarrow>
   ''Product'' \<in> set (columns df) \<and> ''TotalAmount'' \<in> set (columns df)"
  by (auto simp: product_revenue_def groupby_column_sum_def and_then_def in_columns_iff
      split: option.splits column.splits)

lemma product_revenue_three:
  "product_revenue three_products = Inr [(KStr ''A'', 50), (KStr ''B'', 30), (KStr ''C'', 20)]"
  by (simp add: three_products_def product_revenue_def groupby_column_sum_def and_then_def
      groupby_sum_def group_keys_def unique_def group_rows_def nansum_def
      sort_values_desc_def less_eq_key_def)

lemma product_revenue_dated:
  "product_revenue dated_sales = Inr [(KStr ''mug'', 15), (KStr ''pen'', 2)]"
  by (simp add: dated_sales_def product_revenue_def groupby_column_sum_def and_then_def
      groupby_sum_def group_keys_def unique_def group_rows_def nansum_def
      sort_values_desc_def less_eq_key_def)

lemma product_revenue_refunds:
  "product_revenue refunds = Inr [(KStr ''A'', 10), (KStr ''B'', - 30)]"
  by (simp add: refunds_def product_revenue_def groupby_column_sum_def and_then_def
      groupby_sum_def group_keys_def unique_def group_rows_def nansum_def
      sort_values_desc_def less_eq_key_def)

text \<open>
  Claim C2, as the code has it. The claim says that the revenue of the reported number
  of top products is at most 80% of the total. In \<open>refunds\<close> the total is negative: the
  share of product A is \<open>-50\<close> percent, so the step reports one product, whose revenue
  10 is more than 80% of the total \<open>-20\<close>.
\<close>

theorem pareto_count_counterexample:
  "product_revenue refunds = Inr [(KStr ''A'', 10), (KStr ''B'', - 30)] \<and>
   revenue_driver_analysis refunds =
     Inr (banner 50 ''REVENUE DRIVER IDENTIFICATION'' @
          [Print (Text (CHR 0x0A # ''Top 10 Products by Revenue:'')),
           Print (Amounts [(KStr ''A'', 10), (KStr ''B'', - 30)]),
           Savefig ''results/top_products_revenue.png'',
           Print (Text (CHR 0x0A # ''80/20 Rule Analysis:'')),
           Print (TopProducts 1 (Finite 50))]) \<and>
   \<not> sum_list (take 1 (map snd [(KStr ''A'', 10 :: real), (KStr ''B'', - 30)]))
       \<le> 80 / 100 * series_sum [(KStr ''A'', 10), (KStr ''B'', - 30)]"
proof -
  have cols: "''Product'' \<in> set (columns refunds) \<and> ''TotalAmount'' \<in> set (columns refunds)"
    by (simp add: refunds_def columns_def)
  then show ?thesis
    by (simp add: product_revenue_refunds revenue_driver_analysis_def and_then_def
        bar_chart_def head_def top_20_pct_def cumulative_pct_def cumsum_def series_sum_def
        true_divide_def)
qed

text \<open>
  Claim C2, amended: for every table with a product column and a numeric monetary column
  whose amounts are whole numbers with magnitudes adding up to at most \<open>2 ^ 50\<close>, and
  whose total revenue is positive, the step completes, and the number \<open>N\<close> it reports
  satisfies: the revenue of the top \<open>N\<close> products, in descending revenue order, is at
  most 80% of the total; unless \<open>N\<close> is the number of products, the revenue of the top
  \<open>N + 1\<close> exceeds 80%; and if the top product alone exceeds 80%, \<open>N\<close> is zero. The
  step prints the ten largest revenues before it, each with a product of that revenue.

  The condition on the amounts is the arithmetic caveat. The script compares the
  \<^verbatim>\<open>float64\<close> value of \<^verbatim>\<open>cumsum / total * 100\<close> with 80. For such amounts the
  cumulative sums \<open>c\<close> and the total \<open>t\<close> are whole numbers that pandas forms exactly,
  and the comparison decides \<open>c \<le> 80 / 100 * t\<close> as it stands here: a quotient
  \<open>c / t\<close> above \<open>0.8\<close> is above it by \<open>1 / (5 * t)\<close> at least, which for \<open>t\<close> up to
  \<open>2 ^ 50\<close> is more than the distance from \<open>0.8\<close> to the second \<^verbatim>\<open>float64\<close> above it,
  and one hundred times that \<^verbatim>\<open>float64\<close> is rounded to a value above 80, while one
  hundred times the \<^verbatim>\<open>float64\<close> nearest to \<open>0.8\<close> is rounded to 80. With fractional
  or larger amounts the rounding can move a product across the 80 mark.
\<close>

theorem pareto_count:
  assumes "map_of df ''TotalAmount'' = Some (Numeric vs)" and "whole_amounts 50 vs"
      and "product_revenue df = Inr pr" and "0 < series_sum pr"
  shows "sorted_wrt (\<ge>) (map snd pr) \<and>
     sum_list (take (top_20_pct pr) (map snd pr)) \<le> 80 / 100 * series_sum pr \<and>
     (top_20_pct pr < length pr \<longrightarrow>
        80 / 100 * series_sum pr < sum_list (take (Suc (top_20_pct pr)) (map snd pr))) \<and>
     (80 / 100 * series_sum pr < snd (hd pr) \<longrightarrow> top_20_pct pr = 0) \<and>
     (\<exists>top share. revenue_driver_analysis df =
        Inr (banner 50 ''REVENUE DRIVER IDENTIFICATION'' @
             [Print (Text (CHR 0x0A # ''Top 10 Products by Revenue:'')),
              Print (Amounts top),
              Savefig ''results/top_products_revenue.png'',
              Print (Text (CHR 0x0A # ''80/20 Rule Analysis:'')),
              Print (TopProducts (top_20_pct pr) share)]) \<and>
        map snd top = take 10 (map snd pr) \<and> set top \<subseteq> set pr)"
proof -
  note desc = product_revenue_descending[OF assms(3)]
  from assms(4) have ne: "pr \<noteq> []" by (auto simp: series_sum_def)
  have "revenue_driver_analysis df =
        Inr (banner 50 ''REVENUE DRIVER IDENTIFICATION'' @
             [Print (Text (CHR 0x0A # ''Top 10 Products by Revenue:'')),
              Print (Amounts (head 10 pr)),
              Savefig ''results/top_products_revenue.png'',
              Print (Text (CHR 0x0A # ''80/20 Rule Analysis:'')),
              Print (TopProducts (top_20_pct pr)
                (times100 (true_divide (real (top_20_pct pr)) (real (length pr)))))])"
    using product_revenue_columns[OF assms(3)] assms(3) ne
    by (simp add: revenue_driver_analysis_def bar_chart_def head_def Let_def)
  moreover have "map snd (head 10 pr) = take 10 (map snd pr)"
    by (simp add: head_def take_map)
  moreover have "set (head 10 pr) \<subseteq> set pr"
    by (simp add: head_def set_take_subset)
  ultimately have run: "\<exists>top share. revenue_driver_analysis df =
        Inr (banner 50 ''REVENUE DRIVER IDENTIFICATION'' @
             [Print (Text (CHR 0x0A # ''Top 10 Products by Revenue:'')),
              Print (Amounts top),
              Savefig ''results/top_products_revenue.png'',
              Print (Text (CHR 0x0A # ''80/20 Rule Analysis:'')),
              Print (TopProducts (top_20_pct pr) share)]) \<and>
        map snd top = take 10 (map snd pr) \<and> set top \<subseteq> set pr"
    by blast
  from desc pareto_threshold[OF desc assms(4)] run show ?thesis by blast
qed

theorem pareto_count_witness:
  "map_of three_products ''TotalAmount'' = Some (Numeric [Some 20, Some 35, Some 30, Some 15]) \<and>
   whole_amounts 50 [Some 20, Some 35, Some 30, Some 15] \<and>
   product_revenue three_products = Inr [(KStr ''A'', 50), (KStr ''B'', 30), (KStr ''C'', 20)] \<and>
   0 < series_sum [(KStr ''A'', 50), (KStr ''B'', 30), (KStr ''C'', 20)] \<and>
   top_20_pct [(KStr ''A'', 50), (KStr ''B'', 30), (KStr ''C'', 20)] = 2 \<and>
   sum_list (take 2 (map snd [(KStr ''A'', 50 :: real), (KStr ''B'', 30), (KStr ''C'', 20)]))
     \<le> 80 / 100 * series_sum [(KStr ''A'', 50), (KStr ''B'', 30), (KStr ''C'', 20)] \<and>
   80 / 100 * series_sum [(KStr ''A'', 50), (KStr ''B'', 30), (KStr ''C'', 20)]
     < sum_list (take 3 (map snd [(KStr ''A'', 50 :: real), (KStr ''B'', 30), (KStr ''C'', 20)])) \<and>
   map_of dated_sales ''TotalAmount'' = Some (Numeric [Some 10, Some 2, Some 5]) \<and>
   whole_amounts 50 [Some 10, Some 2, Some 5] \<and>
   product_revenue dated_sales = Inr [(KStr ''mug'', 15), (KStr ''pen'', 2)] \<and>
   0 < series_sum [(KStr ''mug'', 15), (KStr ''pen'', 2)] \<and>
   80 / 100 * series_sum [(KStr ''mug'', 15), (KStr ''pen'', 2)]
     < snd (hd [(KStr ''mug'', 15 :: real), (KStr ''pen'', 2)]) \<and>
   top_20_pct [(KStr ''mug'', 15), (KStr ''pen'', 2)] = 0"
proof -
  let ?three = "[(KStr ''A'', 50 :: real), (KStr ''B'', 30), (KStr ''C'', 20)]"
  let ?two = "[(KStr ''mug'', 15 :: real), (KStr ''pen'', 2)]"
  have a3: "map_of three_products ''TotalAmount'' =
      Some (Numeric [Some 20, Some 35, Some 30, Some 15])"
    by (simp add: three_products_def)
  have w3: "whole_amounts 50 [Some 20, Some 35, Some 30, Some 15]"
    by (simp add: whole_amounts_def)
  have a2: "map_of dated_sales ''TotalAmount'' = Some (Numeric [Some 10, Some 2, Some 5])"
    by (simp add: dated_sales_def)
  have w2: "whole_amounts 50 [Some 10, Some 2, Some 5]"
    by (simp add: whole_amounts_def)
  have pos3: "0 < series_sum ?three" by (simp add: series_sum_def)
  have n3: "top_20_pct ?three = 2"
    by (simp add: top_20_pct_def cumulative_pct_def cumsum_def series_sum_def true_divide_def)
  have pos2: "0 < series_sum ?two" by (simp add: series_sum_def)
  have top2: "80 / 100 * series_sum ?two < snd (hd ?two)" by (simp add: series_sum_def)
  from pareto_count [OF a3 w3 product_revenue_three pos3] n3
  have "sum_list (take 2 (map snd ?three)) \<le> 80 / 100 * series_sum ?three"
    and "80 / 100 * series_sum ?three < sum_list (take 3 (map snd ?three))"
    by (simp_all add: numeral_3_eq_3)
  moreover from pareto_count [OF a2 w2 product_revenue_dated pos2] top2
  have "top_20_pct ?two = 0" by blast
  ultimately show ?thesis
    using a3 w3 a2 w2 product_revenue_three product_revenue_dated pos3 pos2 top2 n3 by blast
qed

subsection \<open>A table with no row\<close>

lemma zero_rows_member:
  "zero_rows df \<Longrightarrow> (n, c) \<in> set df \<Longrightarrow> col_len c = 0"
  by (force simp: zero_rows_def list_all_iff)

lemma zero_rows_column:
  "zero_rows df \<Longrightarrow> map_of df n = Some c \<Longrightarrow> col_len c = 0"
  by (blast intro: zero_rows_member dest: map_of_SomeD)

lemma keys_of_empty: "col_len c = 0 \<Longrightarrow> keys_of c = []"
  by (cases c) simp_all

lemma groupby_sum_empty [simp]: "groupby_sum [] vs = []"
  by (simp add: groupby_sum_def group_keys_def unique_def)

lemma zero_rows_groupby:
  "zero_rows df \<Longrightarrow> groupby_column_sum df by val = Inr s \<Longrightarrow> s = []"
  by (auto simp: groupby_column_sum_def keys_of_empty dest: zero_rows_column
      split: option.splits column.splits)

lemma sort_index_empty [simp]: "sort_index [] = []"
  by (simp add: sort_index_def)

lemma sort_values_desc_empty [simp]: "sort_values_desc [] = []"
  by (simp add: sort_values_desc_def)

lemma zero_rows_sales:
  assumes "zero_rows df" and "''TotalAmount'' \<in> set (columns df)" and "''Month'' \<in> set (columns df)"
  shows "\<exists>e. sales_trends_analysis df = Inl e"
proof (cases "groupby_column_sum df ''Month'' ''TotalAmount''")
  case (Inl e)
  with assms show ?thesis
    by (simp add: sales_trends_analysis_def monthly_sales_def and_then_def)
next
  case (Inr s)
  with zero_rows_groupby[OF assms(1) Inr] assms show ?thesis
    by (simp add: sales_trends_analysis_def monthly_sales_def and_then_def bar_chart_def)
qed

lemma zero_rows_revenue:
  assumes "zero_rows df" and "''Product'' \<in> set (columns df)" and "''TotalAmount'' \<in> set (columns df)"
  shows "\<exists>e. revenue_driver_analysis df = Inl e"
proof (cases "groupby_column_sum df ''Product'' ''TotalAmount''")
  case (Inl e)
  with assms show ?thesis
    by (simp add: revenue_driver_analysis_def product_revenue_def and_then_def)
next
  case (Inr s)
  with zero_rows_groupby[OF assms(1) Inr] assms show ?thesis
    by (simp add: revenue_driver_analysis_def product_revenue_def and_then_def bar_chart_def
        head_def)
qed

lemma generate_report_sales_raises:
  "sales_trends_analysis df = Inl e \<Longrightarrow> \<exists>e'. generate_report df = Inl e'"
  unfolding generate_report_def by (cases "basic_statistics df") simp_all

lemma generate_report_revenue_raises:
  assumes "revenue_driver_analysis df = Inl e"
  shows "\<exists>e'. generate_report df = Inl e'"
  unfolding generate_report_def
  using assms
  by (cases "basic_statistics df"; cases "sales_trends_analysis df";
      cases "customer_behavior_analysis df") simp_all

lemma select_numeric_set:
  "(n, xs) \<in> set (select_numeric df) \<Longrightarrow> (n, Numeric xs) \<in> set df"
  by (induction df rule: select_numeric.induct) auto

lemma numeric_summary_empty: "numeric_summary [] = NumericSummary 0 None None None"
  by (simp add: numeric_summary_def list_mean_def list_min_def list_max_def)

lemma datetime_summary_empty: "datetime_summary [] = DatetimeSummary 0 None None"
  by (simp add: datetime_summary_def)

lemma object_summary_empty: "col_len c = 0 \<Longrightarrow> object_summary c = ObjectSummary 0 0"
  by (simp add: object_summary_def keys_of_empty unique_def)

lemma select_described_set:
  "(n, s) \<in> set (select_described df) \<Longrightarrow>
   (\<exists>xs. (n, Numeric xs) \<in> set df \<and> s = numeric_summary xs) \<or>
   (\<exists>ts. (n, Datetime ts) \<in> set df \<and> s = datetime_summary ts)"
  by (induction df rule: select_described.induct) auto

lemma zero_rows_describe:
  assumes "zero_rows df" and "df \<noteq> []"
  shows "\<exists>stats. describe df = Inr stats \<and>
           (\<forall>r\<in>set stats. snd r = NumericSummary 0 None None None \<or>
                           snd r = DatetimeSummary 0 None None \<or>
                           snd r = ObjectSummary 0 0)"
proof (cases "select_described df = []")
  case True
  have "object_summary c = ObjectSummary 0 0" if "(n, c) \<in> set df" for n c
    using that assms(1) by (blast intro: object_summary_empty zero_rows_member)
  with True assms(2) show ?thesis by (auto simp: describe_def)
next
  case False
  have empty: "s = NumericSummary 0 None None None \<or> s = DatetimeSummary 0 None None"
    if "(n, s) \<in> set (select_described df)" for n s
    using select_described_set [OF that]
  proof (elim disjE exE conjE)
    fix xs assume "(n, Numeric xs) \<in> set df" and s: "s = numeric_summary xs"
    with assms(1) have "col_len (Numeric xs) = 0" by (blast intro: zero_rows_member)
    then show ?thesis using s by (simp add: numeric_summary_empty)
  next
    fix ts assume "(n, Datetime ts) \<in> set df" and s: "s = datetime_summary ts"
    with assms(1) have "col_len (Datetime ts) = 0" by (blast intro: zero_rows_member)
    then show ?thesis using s by (simp add: datetime_summary_empty)
  qed
  have "\<forall>r\<in>set (select_described df). snd r = NumericSummary 0 None None None \<or>
      snd r = DatetimeSummary 0 None None \<or> snd r = ObjectSummary 0 0"
  proof
    fix r assume "r \<in> set (select_described df)"
    then have "(fst r, snd r) \<in> set (select_described df)" by simp
    from empty [OF this]
    show "snd r = NumericSummary 0 None None None \<or>
      snd r = DatetimeSummary 0 None None \<or> snd r = ObjectSummary 0 0" by blast
  qed
  with False assms(2) show ?thesis by (simp add: describe_def)
qed

text \<open>The customer step on a table with no row: every aggregate is empty.\<close>

lemma value_counts_empty [simp]: "value_counts [] = []"
  by (simp add: value_counts_def unique_def)

lemma groupby_text_sum_empty [simp]: "groupby_text_sum [] ss = []"
  by (simp add: groupby_text_sum_def group_keys_def unique_def)

lemma zero_rows_customer:
  assumes "zero_rows df" and "map_of df ''CustomerID'' = Some c"
  shows "customer_behavior_analysis df =
     and_then (customer_spending_report df) (\<lambda>spending.
       Inr (banner 50 ''CUSTOMER BEHAVIOR INSIGHTS'' @
            [Print (TotalUniqueCustomers 0),
             Print (AveragePurchases None),
             Print (Text (CHR 0x0A # ''Top 10 Customers by Purchase Frequency:'')),
             Print (Counts [])] @ spending))"
proof -
  have "keys_of c = []"
    using assms by (blast intro: keys_of_empty zero_rows_column)
  with assms(2) map_of_columns [OF assms(2)] show ?thesis
    by (simp add: customer_behavior_analysis_def customer_freq_def unique_customers_def
        nunique_def unique_def series_mean_def head_def)
qed

lemma zero_rows_spending:
  assumes "zero_rows df" and "map_of df ''CustomerID'' = Some c"
  shows "map_of df ''TotalAmount'' = None \<Longrightarrow> customer_spending_report df = Inr []"
    and "map_of df ''TotalAmount'' = Some (Numeric vs) \<Longrightarrow>
         customer_spending_report df =
           Inr [Print (Text (CHR 0x0A # ''Top 10 Customers by Spending:'')),
                Print (Amounts []),
                Savefig ''results/customer_spending_dist.png'']"
    and "map_of df ''TotalAmount'' = Some (Object ss) \<Longrightarrow>
         customer_spending_report df =
           Inr [Print (Text (CHR 0x0A # ''Top 10 Customers by Spending:'')),
                Print (TextAmounts []),
                Savefig ''results/customer_spending_dist.png'']"
proof -
  have keys: "keys_of c = []"
    using assms by (blast intro: keys_of_empty zero_rows_column)
  show "map_of df ''TotalAmount'' = None \<Longrightarrow> customer_spending_report df = Inr []"
    by (simp add: customer_spending_report_def in_columns_iff)
  show "map_of df ''TotalAmount'' = Some (Numeric vs) \<Longrightarrow>
         customer_spending_report df =
           Inr [Print (Text (CHR 0x0A # ''Top 10 Customers by Spending:'')),
                Print (Amounts []),
                Savefig ''results/customer_spending_dist.png'']"
    using assms(2) keys
    by (simp add: customer_spending_report_def in_columns_iff customer_spending_def head_def)
  show "map_of df ''TotalAmount'' = Some (Object ss) \<Longrightarrow>
         customer_spending_report df =
           Inr [Print (Text (CHR 0x0A # ''Top 10 Customers by Spending:'')),
                Print (TextAmounts []),
                Savefig ''results/customer_spending_dist.png'']"
    using assms(2) keys
    by (simp add: customer_spending_report_def in_columns_iff customer_spending_def head_def
        sort_text_desc_def)
qed

lemma zero_rows_customer_completes:
  assumes "zero_rows df" and "\<forall>ts. map_of df ''TotalAmount'' \<noteq> Some (Datetime ts)"
  shows "\<exists>out. customer_behavior_analysis df = Inr out"
proof (cases "map_of df ''CustomerID''")
  case None
  then show ?thesis by (simp add: customer_behavior_analysis_def in_columns_iff)
next
  case (Some c)
  note run = zero_rows_customer [OF assms(1) Some]
  note spending = zero_rows_spending [OF assms(1) Some]
  show ?thesis
  proof (cases "map_of df ''TotalAmount''")
    case None
    with run spending(1) show ?thesis by simp
  next
    case (Some a)
    with assms(2) run spending(2,3) show ?thesis by (cases a) simp_all
  qed
qed

text \<open>The correlation step on a table with no row: no pair of columns has a coefficient.\<close>

lemma pearson_empty [simp]: "pearson [] ys = None"
  by (simp add: pearson_def complete_pairs_def)

lemma corr_empty_columns:
  assumes "\<forall>c\<in>set cols. c = []"
  shows "corr cols = replicate (length cols) (replicate (length cols) None)"
proof -
  let ?n = "length cols"
  have empty: "cols ! i = []" if "i < ?n" for i
    using assms that by simp
  have row: "map (\<lambda>j. if j \<le> i then pearson (cols ! i) (cols ! j)
                        else pearson (cols ! j) (cols ! i)) [0..<?n] = replicate ?n None"
    if "i < ?n" for i
    by (rule nth_equalityI) (simp_all add: empty that)
  have "map (\<lambda>i. map (\<lambda>j. if j \<le> i then pearson (cols ! i) (cols ! j)
                        else pearson (cols ! j) (cols ! i)) [0..<?n]) [0..<?n] =
        map (\<lambda>i. replicate ?n None) [0..<?n]"
    by (rule map_cong) (simp_all add: row)
  also have "\<dots> = replicate ?n (replicate ?n None)"
    by (simp add: map_replicate_const)
  finally show ?thesis by (simp only: corr_def)
qed

lemma zero_rows_statistical:
  assumes "zero_rows df"
  shows "statistical_analysis df =
     Inr (banner 50 ''STATISTICAL ANALYSIS'' @
          (if 1 < length (select_numeric df)
           then [Savefig ''results/correlation_matrix.png'',
                 Print (CorrelationMatrix (map fst (select_numeric df))
                   (replicate (length (select_numeric df))
                     (replicate (length (select_numeric df)) None)))]
           else []))"
proof -
  have "xs = []" if "(n, xs) \<in> set (select_numeric df)" for n xs
  proof -
    from that have "(n, Numeric xs) \<in> set df" by (rule select_numeric_set)
    with assms have "col_len (Numeric xs) = 0" by (rule zero_rows_member)
    then show ?thesis by simp
  qed
  then have "\<forall>c\<in>set (map snd (select_numeric df)). c = []" by auto
  from corr_empty_columns [OF this] show ?thesis
    by (simp add: statistical_analysis_def Let_def)
qed

lemma generate_report_completes:
  "(\<exists>out. generate_report df = Inr out) \<longleftrightarrow>
   (\<exists>a. basic_statistics df = Inr a) \<and> (\<exists>b. sales_trends_analysis df = Inr b) \<and>
   (\<exists>c. customer_behavior_analysis df = Inr c) \<and> (\<exists>d. revenue_driver_analysis df = Inr d) \<and>
   (\<exists>e. statistical_analysis df = Inr e)"
  unfolding generate_report_def
  by (cases "basic_statistics df"; cases "sales_trends_analysis df";
      cases "customer_behavior_analysis df"; cases "revenue_driver_analysis df";
      cases "statistical_analysis df") simp_all

lemma zero_rows_completes:
  assumes "zero_rows df" and "df \<noteq> []"
      and "\<forall>ts. map_of df ''TotalAmount'' \<noteq> Some (Datetime ts)"
  shows "(\<exists>out. generate_report df = Inr out) \<longleftrightarrow>
     \<not> (''TotalAmount'' \<in> set (columns df) \<and> ''Month'' \<in> set (columns df)) \<and>
     \<not> (''Product'' \<in> set (columns df) \<and> ''TotalAmount'' \<in> set (columns df))"
proof -
  have basic: "\<exists>a. basic_statistics df = Inr a"
    using zero_rows_describe [OF assms(1,2)] by (auto simp: basic_statistics_def)
  have customer: "\<exists>c. customer_behavior_analysis df = Inr c"
    using assms(1,3) by (rule zero_rows_customer_completes)
  have statistical: "\<exists>e. statistical_analysis df = Inr e"
    using zero_rows_statistical [OF assms(1)] by simp
  have sales: "(\<exists>b. sales_trends_analysis df = Inr b) \<longleftrightarrow>
      \<not> (''TotalAmount'' \<in> set (columns df) \<and> ''Month'' \<in> set (columns df))"
  proof (cases "''TotalAmount'' \<in> set (columns df) \<and> ''Month'' \<in> set (columns df)")
    case True
    with zero_rows_sales [OF assms(1)] show ?thesis by auto
  next
    case False
    then show ?thesis by (auto simp: sales_trends_analysis_def)
  qed
  have revenue: "(\<exists>d. revenue_driver_analysis df = Inr d) \<longleftrightarrow>
      \<not> (''Product'' \<in> set (columns df) \<and> ''TotalAmount'' \<in> set (columns df))"
  proof (cases "''Product'' \<in> set (columns df) \<and> ''TotalAmount'' \<in> set (columns df)")
    case True
    with zero_rows_revenue [OF assms(1)] show ?thesis by auto
  next
    case False
    then show ?thesis by (auto simp: revenue_driver_analysis_def)
  qed
  from basic customer statistical sales revenue show ?thesis
    unfolding generate_report_completes by blast
qed

text \<open>
  Claim C3, amended: for a table with zero rows and at least one column, the summary
  statistics are reported without raising, every field a zero count, \<^verbatim>\<open>NaN\<close> or
  \<^verbatim>\<open>NaT\<close>. The customer step and the correlation step handle their empty aggregates:
  the customer step reports no customer, a \<^verbatim>\<open>NaN\<close> average and empty series, and saves
  the histogram when the monetary column is there (as numbers or as text); the
  correlation step reports a matrix of \<^verbatim>\<open>NaN\<close> and saves its chart when there are at
  least two numeric columns. The sales step and the revenue step are skipped on missing
  columns only, not on an empty aggregate: when the monetary and month columns are
  present the sales step raises, when the product and monetary columns are present the
  revenue step raises, and the exception ends the run. So the run on such a table
  completes exactly when neither of these two steps finds its columns (the monetary
  column taken not to be a timestamp column, which pandas refuses to sum).
\<close>

theorem empty_table_report:
  assumes "zero_rows df" and "df \<noteq> []"
  shows "(\<exists>stats. basic_statistics df =
            Inr (banner 50 ''DATASET OVERVIEW'' @
                 [Print (Shape 0 (length (columns df))),
                  Print (Columns (columns df)),
                  Print (DataTypes (map (\<lambda>(n, c). (n, dtype_of c)) df)),
                  Print (MissingValues (map (\<lambda>(n, c). (n, null_count c)) df)),
                  Print (BasicStatistics stats)]) \<and>
            (\<forall>r\<in>set stats. snd r = NumericSummary 0 None None None \<or>
                            snd r = DatetimeSummary 0 None None \<or>
                            snd r = ObjectSummary 0 0)) \<and>
         (''TotalAmount'' \<in> set (columns df) \<and> ''Month'' \<in> set (columns df) \<longrightarrow>
            (\<exists>e. sales_trends_analysis df = Inl e) \<and> (\<exists>e. generate_report df = Inl e)) \<and>
         (''Product'' \<in> set (columns df) \<and> ''TotalAmount'' \<in> set (columns df) \<longrightarrow>
            (\<exists>e. revenue_driver_analysis df = Inl e) \<and> (\<exists>e. generate_report df = Inl e)) \<and>
         (''CustomerID'' \<in> set (columns df) \<longrightarrow>
            (map_of df ''TotalAmount'' = None \<longrightarrow>
               customer_behavior_analysis df =
                 Inr (banner 50 ''CUSTOMER BEHAVIOR INSIGHTS'' @
                      [Print (TotalUniqueCustomers 0),
                       Print (AveragePurchases None),
                       Print (Text (CHR 0x0A # ''Top 10 Customers by Purchase Frequency:'')),
                       Print (Counts [])])) \<and>
            (\<forall>vs. map_of df ''TotalAmount'' = Some (Numeric vs) \<longrightarrow>
               customer_behavior_analysis df =
                 Inr (banner 50 ''CUSTOMER BEHAVIOR INSIGHTS'' @
                      [Print (TotalUniqueCustomers 0),
                       Print (AveragePurchases None),
                       Print (Text (CHR 0x0A # ''Top 10 Customers by Purchase Frequency:'')),
                       Print (Counts []),
                       Print (Text (CHR 0x0A # ''Top 10 Customers by Spending:'')),
                       Print (Amounts []),
                       Savefig ''results/customer_spending_dist.png''])) \<and>
            (\<forall>ss. map_of df ''TotalAmount'' = Some (Object ss) \<longrightarrow>
               customer_behavior_analysis df =
                 Inr (banner 50 ''CUSTOMER BEHAVIOR INSIGHTS'' @
                      [Print (TotalUniqueCustomers 0),
                       Print (AveragePurchases None),
                       Print (Text (CHR 0x0A # ''Top 10 Customers by Purchase Frequency:'')),
                       Print (Counts []),
                       Print (Text (CHR 0x0A # ''Top 10 Customers by Spending:'')),
                       Print (TextAmounts []),
                       Savefig ''results/customer_spending_dist.png'']))) \<and>
         statistical_analysis df =
           Inr (banner 50 ''STATISTICAL ANALYSIS'' @
                (if 1 < length (select_numeric df)
                 then [Savefig ''results/correlation_matrix.png'',
                       Print (CorrelationMatrix (map fst (select_numeric df))
                         (replicate (length (select_numeric df))
                           (replicate (length (select_numeric df)) None)))]
                 else [])) \<and>
         ((\<forall>ts. map_of df ''TotalAmount'' \<noteq> Some (Datetime ts)) \<longrightarrow>
            ((\<exists>out. generate_report df = Inr out) \<longleftrightarrow>
               \<not> (''TotalAmount'' \<in> set (columns df) \<and> ''Month'' \<in> set (columns df)) \<and>
               \<not> (''Product'' \<in> set (columns df) \<and> ''TotalAmount'' \<in> set (columns df))))"
proof -
  from assms have rows: "nrows df = 0"
    by (cases df) (auto simp: nrows_def zero_rows_def)
  from zero_rows_describe[OF assms] rows
  have stats: "\<exists>stats. basic_statistics df =
            Inr (banner 50 ''DATASET OVERVIEW'' @
                 [Print (Shape 0 (length (columns df))),
                  Print (Columns (columns df)),
                  Print (DataTypes (map (\<lambda>(n, c). (n, dtype_of c)) df)),
                  Print (MissingValues (map (\<lambda>(n, c). (n, null_count c)) df)),
                  Print (BasicStatistics stats)]) \<and>
            (\<forall>r\<in>set stats. snd r = NumericSummary 0 None None None \<or>
                            snd r = DatetimeSummary 0 None None \<or>
                            snd r = ObjectSummary 0 0)"
    by (auto simp: basic_statistics_def)
  have sales: "(\<exists>e. sales_trends_analysis df = Inl e) \<and> (\<exists>e. generate_report df = Inl e)"
    if "''TotalAmount'' \<in> set (columns df) \<and> ''Month'' \<in> set (columns df)"
    using zero_rows_sales[OF assms(1)] that generate_report_sales_raises by blast
  have revenue: "(\<exists>e. revenue_driver_analysis df = Inl e) \<and> (\<exists>e. generate_report df = Inl e)"
    if "''Product'' \<in> set (columns df) \<and> ''TotalAmount'' \<in> set (columns df)"
    using zero_rows_revenue[OF assms(1)] that generate_report_revenue_raises by blast
  have customer:
    "(map_of df ''TotalAmount'' = None \<longrightarrow>
               customer_behavior_analysis df =
                 Inr (banner 50 ''CUSTOMER BEHAVIOR INSIGHTS'' @
                      [Print (TotalUniqueCustomers 0),
                       Print (AveragePurchases None),
                       Print (Text (CHR 0x0A # ''Top 10 Customers by Purchase Frequency:'')),
                       Print (Counts [])])) \<and>
            (\<forall>vs. map_of df ''TotalAmount'' = Some (Numeric vs) \<longrightarrow>
               customer_behavior_analysis df =
                 Inr (banner 50 ''CUSTOMER BEHAVIOR INSIGHTS'' @
                      [Print (TotalUniqueCustomers 0),
                       Print (AveragePurchases None),
                       Print (Text (CHR 0x0A # ''Top 10 Customers by Purchase Frequency:'')),
                       Print (Counts []),
                       Print (Text (CHR 0x0A # ''Top 10 Customers by Spending:'')),
                       Print (Amounts []),
                       Savefig ''results/customer_spending_dist.png''])) \<and>
            (\<forall>ss. map_of df ''TotalAmount'' = Some (Object ss) \<longrightarrow>
               customer_behavior_analysis df =
                 Inr (banner 50 ''CUSTOMER BEHAVIOR INSIGHTS'' @
                      [Print (TotalUniqueCustomers 0),
                       Print (AveragePurchases None),
                       Print (Text (CHR 0x0A # ''Top 10 Customers by Purchase Frequency:'')),
                       Print (Counts []),
                       Print (Text (CHR 0x0A # ''Top 10 Customers by Spending:'')),
                       Print (TextAmounts []),
                       Savefig ''results/customer_spending_dist.png'']))"
    if "''CustomerID'' \<in> set (columns df)"
  proof -
    from that obtain c where c: "map_of df ''CustomerID'' = Some c"
      by (auto simp: in_columns_iff)
    note run = zero_rows_customer [OF assms(1) c]
    note spending = zero_rows_spending [OF assms(1) c]
    show ?thesis
      by (intro conjI allI impI) (simp_all add: run spending)
  qed
  note statistical = zero_rows_statistical [OF assms(1)]
  have completes: "(\<exists>out. generate_report df = Inr out) \<longleftrightarrow>
               \<not> (''TotalAmount'' \<in> set (columns df) \<and> ''Month'' \<in> set (columns df)) \<and>
               \<not> (''Product'' \<in> set (columns df) \<and> ''TotalAmount'' \<in> set (columns df))"
    if "\<forall>ts. map_of df ''TotalAmount'' \<noteq> Some (Datetime ts)"
    using assms that by (rule zero_rows_completes)
  show ?thesis
    by (intro conjI impI) (use stats sales revenue customer statistical completes in blast)+
qed

theorem empty_table_report_witness:
  "zero_rows no_sales \<and> no_sales \<noteq> [] \<and>
   ''TotalAmount'' \<in> set (columns no_sales) \<and> ''Month'' \<in> set (columns no_sales) \<and>
   ''Product'' \<in> set (columns no_sales) \<and>
   (\<exists>stats. basic_statistics no_sales =
            Inr (banner 50 ''DATASET OVERVIEW'' @
                 [Print (Shape 0 3),
                  Print (Columns [''Month'', ''Product'', ''TotalAmount'']),
                  Print (DataTypes [(''Month'', NumberDtype), (''Product'', ObjectDtype),
                                    (''TotalAmount'', NumberDtype)]),
                  Print (MissingValues [(''Month'', 0), (''Product'', 0), (''TotalAmount'', 0)]),
                  Print (BasicStatistics stats)])) \<and>
   (\<exists>e. sales_trends_analysis no_sales = Inl e) \<and>
   (\<exists>e. revenue_driver_analysis no_sales = Inl e) \<and>
   (\<exists>e. generate_report no_sales = Inl e) \<and>
   statistical_analysis no_sales =
     Inr (banner 50 ''STATISTICAL ANALYSIS'' @
          [Savefig ''results/correlation_matrix.png'',
           Print (CorrelationMatrix [''Month'', ''TotalAmount'']
                    [[None, None], [None, None]])]) \<and>
   zero_rows no_customers \<and> no_customers \<noteq> [] \<and>
   ''CustomerID'' \<in> set (columns no_customers) \<and>
   map_of no_customers ''TotalAmount'' = Some (Object []) \<and>
   ''Month'' \<notin> set (columns no_customers) \<and> ''Product'' \<notin> set (columns no_customers) \<and>
   customer_behavior_analysis no_customers =
     Inr (banner 50 ''CUSTOMER BEHAVIOR INSIGHTS'' @
          [Print (TotalUniqueCustomers 0),
           Print (AveragePurchases None),
           Print (Text (CHR 0x0A # ''Top 10 Customers by Purchase Frequency:'')),
           Print (Counts []),
           Print (Text (CHR 0x0A # ''Top 10 Customers by Spending:'')),
           Print (TextAmounts []),
           Savefig ''results/customer_spending_dist.png'']) \<and>
   (\<exists>out. generate_report no_customers = Inr out)"
proof -
  have z: "zero_rows no_sales" by (simp add: no_sales_def zero_rows_def)
  have ne: "no_sales \<noteq> []" by (simp add: no_sales_def)
  have cols: "''TotalAmount'' \<in> set (columns no_sales)" "''Month'' \<in> set (columns no_sales)"
    "''Product'' \<in> set (columns no_sales)"
    by (simp_all add: no_sales_def columns_def)
  have numeric: "select_numeric no_sales = [(''Month'', []), (''TotalAmount'', [])]"
    by (simp add: no_sales_def)
  note sales = empty_table_report [OF z ne]
  from sales cols obtain stats where
    stats: "basic_statistics no_sales =
            Inr (banner 50 ''DATASET OVERVIEW'' @
                 [Print (Shape 0 (length (columns no_sales))),
                  Print (Columns (columns no_sales)),
                  Print (DataTypes (map (\<lambda>(n, c). (n, dtype_of c)) no_sales)),
                  Print (MissingValues (map (\<lambda>(n, c). (n, null_count c)) no_sales)),
                  Print (BasicStatistics stats)])" and
    raises: "\<exists>e. sales_trends_analysis no_sales = Inl e"
      "\<exists>e. revenue_driver_analysis no_sales = Inl e" "\<exists>e. generate_report no_sales = Inl e"
    by blast
  from stats have overview: "basic_statistics no_sales =
            Inr (banner 50 ''DATASET OVERVIEW'' @
                 [Print (Shape 0 3),
                  Print (Columns [''Month'', ''Product'', ''TotalAmount'']),
                  Print (DataTypes [(''Month'', NumberDtype), (''Product'', ObjectDtype),
                                    (''TotalAmount'', NumberDtype)]),
                  Print (MissingValues [(''Month'', 0), (''Product'', 0), (''TotalAmount'', 0)]),
                  Print (BasicStatistics stats)])"
    by (simp add: no_sales_def columns_def)
  from sales have "statistical_analysis no_sales =
           Inr (banner 50 ''STATISTICAL ANALYSIS'' @
                (if 1 < length (select_numeric no_sales)
                 then [Savefig ''results/correlation_matrix.png'',
                       Print (CorrelationMatrix (map fst (select_numeric no_sales))
                         (replicate (length (select_numeric no_sales))
                           (replicate (length (select_numeric no_sales)) None)))]
                 else []))"
    by blast
  then have matrix: "statistical_analysis no_sales =
     Inr (banner 50 ''STATISTICAL ANALYSIS'' @
          [Savefig ''results/correlation_matrix.png'',
           Print (CorrelationMatrix [''Month'', ''TotalAmount'']
                    [[None, None], [None, None]])])"
    unfolding numeric by (simp add: numeral_2_eq_2)
  have z': "zero_rows no_customers" by (simp add: no_customers_def zero_rows_def)
  have ne': "no_customers \<noteq> []" by (simp add: no_customers_def)
  have cols': "''CustomerID'' \<in> set (columns no_customers)"
    "''Month'' \<notin> set (columns no_customers)" "''Product'' \<notin> set (columns no_customers)"
    by (simp_all add: no_customers_def columns_def)
  have amount: "map_of no_customers ''TotalAmount'' = Some (Object [])"
    by (simp add: no_customers_def)
  then have sums: "\<forall>ts. map_of no_customers ''TotalAmount'' \<noteq> Some (Datetime ts)" by simp
  note customers = empty_table_report [OF z' ne']
  from customers cols'(1) amount have customer: "customer_behavior_analysis no_customers =
     Inr (banner 50 ''CUSTOMER BEHAVIOR INSIGHTS'' @
          [Print (TotalUniqueCustomers 0),
           Print (AveragePurchases None),
           Print (Text (CHR 0x0A # ''Top 10 Customers by Purchase Frequency:'')),
           Print (Counts []),
           Print (Text (CHR 0x0A # ''Top 10 Customers by Spending:'')),
           Print (TextAmounts []),
           Savefig ''results/customer_spending_dist.png''])"
    by blast
  from customers sums cols'(2,3) have completes: "\<exists>out. generate_report no_customers = Inr out"
    by blast
  from z ne cols overview raises matrix z' ne' cols' amount customer completes
  show ?thesis by (intro conjI exI [of _ stats])
qed

text \<open>
  Claim C3, as the code has it. The claim says that a table with zero rows does not
  terminate the run. \<open>header_only\<close> is what a file with only its header line is read
  as: the sales step finds its columns, and the run ends there with an exception.
\<close>

theorem empty_table_report_counterexample:
  "nrows header_only = 0 \<and> main example_to_datetime header_only = Inl TypeError"
proof -
  have "load_data example_to_datetime header_only =
     Inr (set_column ''DayOfWeek'' (dt_column dayofweek [])
           (set_column ''Day'' (dt_column day [])
             (set_column ''Month'' (dt_column month [])
               (set_column ''Year'' (dt_column year [])
                 (set_column ''InvoiceDate'' (Datetime []) header_only)))))"
    by (rule load_data_parsed [of _ "Object []"])
       (simp_all add: header_only_def example_to_datetime_def)
  then show ?thesis
    by (simp add: main_def generate_report_def basic_statistics_def describe_def
        sales_trends_analysis_def monthly_sales_def groupby_column_sum_def
        header_only_def dt_column_def columns_def nrows_def)
qed

subsection \<open>The image files of a full run\<close>

lemma saved_files_append [simp]: "saved_files (a @ b) = saved_files a @ saved_files b"
  by (induction a rule: saved_files.induct) simp_all

lemma select_numeric_mem:
  "map_of df a = Some (Numeric xs) \<Longrightarrow> (a, xs) \<in> set (select_numeric df)"
  by (induction df rule: select_numeric.induct) (auto split: if_splits)

lemma two_numeric_columns:
  assumes "map_of df a = Some (Numeric xs)" and "map_of df b = Some (Numeric ys)" and "a \<noteq> b"
  shows "1 < length (select_numeric df)"
proof -
  have "{(a, xs), (b, ys)} \<subseteq> set (select_numeric df)"
    using assms(1,2) by (simp add: select_numeric_mem)
  then have "card {(a, xs), (b, ys)} \<le> card (set (select_numeric df))"
    by (intro card_mono) simp_all
  also have "\<dots> \<le> length (select_numeric df)" by (rule card_length)
  finally show ?thesis using assms(3) by simp
qed

lemma basic_statistics_files:
  "df \<noteq> [] \<Longrightarrow> \<exists>out. basic_statistics df = Inr out \<and> saved_files out = []"
  by (simp add: basic_statistics_def describe_def)

lemma sales_trends_files:
  assumes "monthly_sales df = Inr ms" and "ms \<noteq> []"
  shows "\<exists>out. sales_trends_analysis df = Inr out \<and>
           saved_files out = [''results/monthly_sales_trend.png'']"
  using assms monthly_sales_columns[OF assms(1)]
  by (cases ms)
     (simp_all add: sales_trends_analysis_def bar_chart_def idxmax_def idxmin_def)

lemma customer_files:
  assumes "map_of df ''CustomerID'' = Some c" and "map_of df ''TotalAmount'' = Some (Numeric vs)"
  shows "\<exists>out. customer_behavior_analysis df = Inr out \<and>
           saved_files out = [''results/customer_spending_dist.png'']"
  using assms
  by (simp add: customer_behavior_analysis_def customer_freq_def unique_customers_def
      customer_spending_report_def customer_spending_def groupby_column_sum_def in_columns_iff)

lemma revenue_files:
  assumes "product_revenue df = Inr pr" and "pr \<noteq> []"
  shows "\<exists>out. revenue_driver_analysis df = Inr out \<and>
           saved_files out = [''results/top_products_revenue.png'']"
  using assms product_revenue_columns[OF assms(1)]
  by (simp add: revenue_driver_analysis_def bar_chart_def head_def Let_def)

lemma statistical_files:
  "1 < length (select_numeric df) \<Longrightarrow>
   \<exists>out. statistical_analysis df = Inr out \<and>
         saved_files out = [''results/correlation_matrix.png'']"
  by (simp add: statistical_analysis_def Let_def)

lemma generate_report_files:
  assumes "basic_statistics df = Inr o1" "sales_trends_analysis df = Inr o2"
    "customer_behavior_analysis df = Inr o3" "revenue_driver_analysis df = Inr o4"
    "statistical_analysis df = Inr o5"
  shows "\<exists>out. generate_report df = Inr out \<and>
     saved_files out = saved_files o1 @ saved_files o2 @ saved_files o3 @ saved_files o4 @
       saved_files o5"
  using assms by (simp add: generate_report_def)

lemma main_files:
  assumes "load_data to_datetime csv = Inr df" and "generate_report df = Inr report"
  shows "\<exists>out. main to_datetime csv = Inr out \<and> saved_files out = saved_files report"
  using assms by (simp add: main_def)

lemma dropna_map: "dropna (map (map_option f) xs) = map f (dropna xs)"
  by (induction xs rule: dropna.induct) simp_all

lemma group_keys_nonempty: "dropna ks \<noteq> [] \<Longrightarrow> group_keys ks \<noteq> []"
proof
  assume "dropna ks \<noteq> []" and "group_keys ks = []"
  then have "set (dropna ks) = {}" using set_group_keys[of ks] by simp
  with \<open>dropna ks \<noteq> []\<close> show False by simp
qed

lemma groupby_sum_nonempty: "dropna ks \<noteq> [] \<Longrightarrow> groupby_sum ks vs \<noteq> []"
  by (simp add: groupby_sum_def group_keys_nonempty)

lemma sort_values_desc_nonempty: "s \<noteq> [] \<Longrightarrow> sort_values_desc s \<noteq> []"
  by (metis set_sort_values_desc set_empty)

lemma keys_of_dt_column_nonempty: "dropna ts \<noteq> [] \<Longrightarrow> dropna (keys_of (dt_column f ts)) \<noteq> []"
  by (simp add: dt_column_def dropna_map del: map_map)

lemma full_run_files:
  assumes raw: "map_of csv ''InvoiceDate'' = Some raw" and ts: "to_datetime raw = Inr ts"
      and dated: "dropna ts \<noteq> []"
      and amount: "map_of csv ''TotalAmount'' = Some (Numeric vs)"
      and product: "map_of csv ''Product'' = Some pc" and named: "dropna (keys_of pc) \<noteq> []"
      and customer: "map_of csv ''CustomerID'' = Some cc"
  shows "\<exists>out. main to_datetime csv = Inr out \<and>
     saved_files out =
       [''results/monthly_sales_trend.png'', ''results/customer_spending_dist.png'',
        ''results/top_products_revenue.png'', ''results/correlation_matrix.png'']"
proof -
  let ?df = "set_column ''DayOfWeek'' (dt_column dayofweek ts)
           (set_column ''Day'' (dt_column day ts)
             (set_column ''Month'' (dt_column month ts)
               (set_column ''Year'' (dt_column year ts)
                 (set_column ''InvoiceDate'' (Datetime ts) csv))))"
  have load: "load_data to_datetime csv = Inr ?df"
    using raw ts by (rule load_data_parsed)
  have m: "map_of ?df ''Month'' = Some (dt_column month ts)" by simp
  have y: "map_of ?df ''Year'' = Some (dt_column year ts)" by simp
  have a: "map_of ?df ''TotalAmount'' = Some (Numeric vs)" using amount by simp
  have p: "map_of ?df ''Product'' = Some pc" using product by simp
  have c: "map_of ?df ''CustomerID'' = Some cc" using customer by simp
  have ne: "?df \<noteq> []"
  proof
    assume "?df = []"
    then have "map_of ?df ''Month'' = None" by (simp only: map_of.simps)
    with m show False by simp
  qed
  from basic_statistics_files[OF ne] obtain o1 where
    o1: "basic_statistics ?df = Inr o1" "saved_files o1 = []" by blast
  have "monthly_sales ?df = Inr (sort_index (groupby_sum (keys_of (dt_column month ts)) vs))"
    unfolding monthly_sales_def groupby_column_sum_def by (simp only: m a) simp
  moreover have "sort_index (groupby_sum (keys_of (dt_column month ts)) vs) \<noteq> []"
    using dated by (simp add: groupby_sum_nonempty keys_of_dt_column_nonempty)
  ultimately obtain o2 where
    o2: "sales_trends_analysis ?df = Inr o2"
        "saved_files o2 = [''results/monthly_sales_trend.png'']"
    using sales_trends_files by blast
  from customer_files[OF c a] obtain o3 where
    o3: "customer_behavior_analysis ?df = Inr o3"
        "saved_files o3 = [''results/customer_spending_dist.png'']" by blast
  have "product_revenue ?df = Inr (sort_values_desc (groupby_sum (keys_of pc) vs))"
    unfolding product_revenue_def groupby_column_sum_def by (simp only: p a) simp
  moreover have "sort_values_desc (groupby_sum (keys_of pc) vs) \<noteq> []"
    using named by (simp add: groupby_sum_nonempty sort_values_desc_nonempty)
  ultimately obtain o4 where
    o4: "revenue_driver_analysis ?df = Inr o4"
        "saved_files o4 = [''results/top_products_revenue.png'']"
    using revenue_files by blast
  have "1 < length (select_numeric ?df)"
    using y m unfolding dt_column_def by (rule two_numeric_columns) simp
  from statistical_files[OF this] obtain o5 where
    o5: "statistical_analysis ?df = Inr o5"
        "saved_files o5 = [''results/correlation_matrix.png'']" by blast
  from generate_report_files[OF o1(1) o2(1) o3(1) o4(1) o5(1)] obtain report where
    "generate_report ?df = Inr report"
    "saved_files report = saved_files o1 @ saved_files o2 @ saved_files o3 @ saved_files o4 @
       saved_files o5" by blast
  with main_files[OF load] o1 o2 o3 o4 o5 show ?thesis by simp
qed

text \<open>
  Claim C9, amended: for every input table with the timestamp, customer, product and
  numeric monetary columns, whose timestamps parse, with at least one dated row and at
  least one named product, a full run completes and saves exactly four image files, each
  under a fixed name in \<^verbatim>\<open>results/\<close>: the monthly trend, the customer spending
  distribution, the top products and the correlation matrix.
\<close>

theorem four_charts:
  assumes "map_of csv ''InvoiceDate'' = Some raw" and "to_datetime raw = Inr ts"
      and "dropna ts \<noteq> []"
      and "map_of csv ''TotalAmount'' = Some (Numeric vs)"
      and "map_of csv ''Product'' = Some pc" and "dropna (keys_of pc) \<noteq> []"
      and "map_of csv ''CustomerID'' = Some cc"
  shows "\<exists>out. main to_datetime csv = Inr out \<and>
     saved_files out =
       [''results/monthly_sales_trend.png'', ''results/customer_spending_dist.png'',
        ''results/top_products_revenue.png'', ''results/correlation_matrix.png'']"
  using assms by (rule full_run_files)

lemma dated_sales_parsed:
  "example_to_datetime (Object [Some ''2024-02-29 10:00'', None, Some ''2024-03-01 08:26'']) =
     Inr [Some \<lparr>year = 2024, month = 2, day = 29, time_ns = 36000000000000\<rparr>, None,
          Some \<lparr>year = 2024, month = 3, day = 1, time_ns = 30360000000000\<rparr>]"
  by (simp add: example_to_datetime_def known_dates_def)

theorem four_charts_witness:
  "map_of dated_sales ''InvoiceDate'' =
     Some (Object [Some ''2024-02-29 10:00'', None, Some ''2024-03-01 08:26'']) \<and>
   example_to_datetime (Object [Some ''2024-02-29 10:00'', None, Some ''2024-03-01 08:26'']) =
     Inr [Some \<lparr>year = 2024, month = 2, day = 29, time_ns = 36000000000000\<rparr>, None,
          Some \<lparr>year = 2024, month = 3, day = 1, time_ns = 30360000000000\<rparr>] \<and>
   dropna [Some \<lparr>year = 2024, month = 2, day = 29, time_ns = 36000000000000\<rparr>, None,
          Some \<lparr>year = 2024, month = 3, day = 1, time_ns = 30360000000000\<rparr>] \<noteq> [] \<and>
   map_of dated_sales ''TotalAmount'' = Some (Numeric [Some 10, Some 2, Some 5]) \<and>
   map_of dated_sales ''Product'' = Some (Object [Some ''mug'', Some ''pen'', Some ''mug'']) \<and>
   dropna (keys_of (Object [Some ''mug'', Some ''pen'', Some ''mug''])) \<noteq> [] \<and>
   map_of dated_sales ''CustomerID'' = Some (Numeric [Some 7, Some 7, None]) \<and>
   (\<exists>out. main example_to_datetime dated_sales = Inr out \<and>
     saved_files out =
       [''results/monthly_sales_trend.png'', ''results/customer_spending_dist.png'',
        ''results/top_products_revenue.png'', ''results/correlation_matrix.png''])"
proof -
  have raw: "map_of dated_sales ''InvoiceDate'' =
     Some (Object [Some ''2024-02-29 10:00'', None, Some ''2024-03-01 08:26''])"
    by (simp add: dated_sales_def)
  have dated: "dropna [Some \<lparr>year = 2024, month = 2, day = 29, time_ns = 36000000000000\<rparr>, None,
          Some \<lparr>year = 2024, month = 3, day = 1, time_ns = 30360000000000\<rparr>] \<noteq> []"
    by simp
  have amount: "map_of dated_sales ''TotalAmount'' = Some (Numeric [Some 10, Some 2, Some 5])"
    by (simp add: dated_sales_def)
  have product: "map_of dated_sales ''Product'' =
      Some (Object [Some ''mug'', Some ''pen'', Some ''mug''])"
    by (simp add: dated_sales_def)
  have named: "dropna (keys_of (Object [Some ''mug'', Some ''pen'', Some ''mug''])) \<noteq> []"
    by simp
  have customer: "map_of dated_sales ''CustomerID'' = Some (Numeric [Some 7, Some 7, None])"
    by (simp add: dated_sales_def)
  from four_charts [of dated_sales _ example_to_datetime, OF raw dated_sales_parsed dated
      amount product named customer]
    raw dated_sales_parsed dated amount product named customer
  show ?thesis by blast
qed

text \<open>
  Claim C9, as the code has it. The claim says that a full run writes five image files.
  The script has four \<^verbatim>\<open>savefig\<close> calls: the run on \<open>dated_sales\<close>, which has every
  optional column, saves four.
\<close>

theorem four_charts_counterexample:
  "map_sum id saved_files (main example_to_datetime dated_sales) =
     Inr [''results/monthly_sales_trend.png'', ''results/customer_spending_dist.png'',
          ''results/top_products_revenue.png'', ''results/correlation_matrix.png''] \<and>
   length [''results/monthly_sales_trend.png'', ''results/customer_spending_dist.png'',
           ''results/top_products_revenue.png'', ''results/correlation_matrix.png''] \<noteq> 5"
proof -
  have raw: "map_of dated_sales ''InvoiceDate'' =
     Some (Object [Some ''2024-02-29 10:00'', None, Some ''2024-03-01 08:26''])"
    and amount: "map_of dated_sales ''TotalAmount'' = Some (Numeric [Some 10, Some 2, Some 5])"
    and product: "map_of dated_sales ''Product'' =
      Some (Object [Some ''mug'', Some ''pen'', Some ''mug''])"
    and customer: "map_of dated_sales ''CustomerID'' = Some (Numeric [Some 7, Some 7, None])"
    by (simp_all add: dated_sales_def)
  from full_run_files [of dated_sales _ example_to_datetime, OF raw dated_sales_parsed _
      amount product _ customer]
  obtain out where "main example_to_datetime dated_sales = Inr out"
    "saved_files out =
       [''results/monthly_sales_trend.png'', ''results/customer_spending_dist.png'',
        ''results/top_products_revenue.png'', ''results/correlation_matrix.png'']"
    by auto
  then show ?thesis by simp
qed

subsection \<open>The correlation matrix\<close>


















end
